theory Spec2Isabelle
  imports Complex_Main "HOL-Library.Log_Nat" "HOL-Library.Sublist"
begin

section \<open>Python values used by the handlers of server.py\<close>

text \<open>
  Request fields that Flask hands over as \<open>str\<close> or \<open>None\<close> are \<open>string option\<close>.
  A \<open>str\<close> is a list of characters, and a character is a code point below 256: the
  character \<open>CHR n\<close> is U+00n. White space is what \<open>str.isspace\<close>, \<open>str.strip\<close> and
  \<open>\s\<close> of \<open>re\<close> take for white space among these characters. The upper-case form of
  a character can lie outside them and can be longer than one character, so
  \<open>str.upper\<close> yields code points, by the case table of the Python runtime, which is a
  parameter of the model.
\<close>

datatype exn = AttributeError | OverflowError | ValueError | ZeroDivisionError | OSError

text \<open>Python truthiness of an optional string: \<open>None\<close> and \<open>""\<close> are false.\<close>

fun truthy :: "string option \<Rightarrow> bool" where
  "truthy None = False"
| "truthy (Some s) = (s \<noteq> [])"

text \<open>
  The white space of Unicode below 256: tab to carriage return, the four separators
  U+001C to U+001F, the space, NEXT LINE (U+0085) and NO-BREAK SPACE (U+00A0).
\<close>

definition py_isspace :: "char \<Rightarrow> bool" where
  "py_isspace c = (c \<in> {CHR '' '', CHR 0x09, CHR 0x0A, CHR 0x0B, CHR 0x0C, CHR 0x0D,
                         CHR 0x1C, CHR 0x1D, CHR 0x1E, CHR 0x1F, CHR 0x85, CHR 0xA0})"

definition py_strip :: "string \<Rightarrow> string" where
  "py_strip s = rev (dropWhile py_isspace (rev (dropWhile py_isspace s)))"

text \<open>
  The case table: the code points of the upper-case form of each character. \<open>str.upper\<close>
  maps the characters of a text one by one and joins the results.
\<close>

type_synonym casing = "char \<Rightarrow> nat list"

definition py_upper :: "casing \<Rightarrow> string \<Rightarrow> nat list" where
  "py_upper up s = concat (map up s)"

text \<open>\<open>sep.join(xs)\<close>\<close>

fun py_join :: "string \<Rightarrow> string list \<Rightarrow> string" where
  "py_join sep [] = []"
| "py_join sep [x] = x"
| "py_join sep (x # y # ys) = x @ sep @ py_join sep (y # ys)"

section \<open>The completion service and the world a request runs in\<close>

text \<open>
  Every prompt is a fixed template of the source with values interpolated by an f-string.
  A prompt is represented by the template it instantiates together with the interpolated
  values, in the order in which they occur in the template.
\<close>

datatype prompt =
    McqPrompt string int string string
  | SubjectivePrompt string int string string
  | ExplanationPrompt string string
  | SolutionPrompt string string
  | SubjectiveEvalPrompt string string string
  | PlagiarismPrompt string string
  | RecommendationPrompt string string

text \<open>
  \<open>model.generate_content(prompt)\<close> followed by \<open>.text\<close> either yields the reply text
  or raises; \<open>Failed msg\<close> is a raised exception whose \<open>str(e)\<close> is \<open>msg\<close>. The service is
  not a function of the prompt: the outcome of a call may depend on how many calls were
  made before, so the oracle takes the index of the call as well.
\<close>

datatype reply = Text string | Failed string

type_synonym service = "nat \<Rightarrow> prompt \<Rightarrow> reply"

text \<open>
  The world: the files of the temporary directory (path to content) and the log of the
  prompts sent to the completion service so far.
\<close>

record world =
  files :: "string \<rightharpoonup> string"
  calls :: "prompt list"

definition generate_content :: "service \<Rightarrow> prompt \<Rightarrow> world \<Rightarrow> reply \<times> world" where
  "generate_content orc p w = (orc (length (calls w)) p, w\<lparr>calls := calls w @ [p]\<rparr>)"

section \<open>Responses\<close>

record evaluation_result =
  score :: string
  feedback :: string
  skill_gap :: string
  solution_highlights :: string
  raw_gemini_response :: "string option"

datatype body =
    ErrorBody string
  | Evaluation evaluation_result
  | Assessment string string
  | PlagiarismReport string
  | Recommendations string

record response =
  status :: nat
  body :: body

text \<open>
  A handler either returns a response or lets an exception escape (\<open>Inl\<close>), and leaves a
  world behind.
\<close>

type_synonym outcome = "(exn + response) \<times> world"

definition jsonify :: "nat \<Rightarrow> body \<Rightarrow> world \<Rightarrow> outcome" where
  "jsonify st b w = (Inr \<lparr>status = st, body = b\<rparr>, w)"

section \<open>Regular expressions of the evaluation parser\<close>

text \<open>
  The fragment of Python's \<open>re\<close> that the four patterns of \<open>evaluate_answer\<close> use: a
  literal, a starred character class (greedy or lazy, capturing or not), and a lookahead
  over alternatives that are a literal or \<open>$\<close>. Matching is by backtracking: the
  alternatives of a star are tried in the order of preference and the first one for which
  the rest of the pattern matches is taken; \<open>re.search\<close> tries the start positions from
  left to right.
\<close>

datatype cls = Space | Dot | DotAll

fun in_cls :: "cls \<Rightarrow> char \<Rightarrow> bool" where
  "in_cls Space c = py_isspace c"
| "in_cls Dot c = (c \<noteq> CHR 0x0A)"
| "in_cls DotAll c = True"

datatype alt = ALit string | AEnd

text \<open>\<open>$\<close> without \<open>re.MULTILINE\<close>: at the end, or just before a newline that ends the text.\<close>

fun alt_holds :: "alt \<Rightarrow> string \<Rightarrow> bool" where
  "alt_holds (ALit l) s = prefix l s"
| "alt_holds AEnd s = (s = [] \<or> s = [CHR 0x0A])"

datatype item =
    Lit string
  | Star bool bool cls
  | Ahead "alt list"

fun first_some :: "('a \<Rightarrow> 'b option) \<Rightarrow> 'a list \<Rightarrow> 'b option" where
  "first_some f [] = None"
| "first_some f (x # xs) = (case f x of Some y \<Rightarrow> Some y | None \<Rightarrow> first_some f xs)"

text \<open>
  \<open>Star greedy capture c\<close>: the lengths a star may take are \<open>0\<close> up to the length of the
  longest run of characters of the class, longest first when greedy, shortest first when
  lazy. \<open>rx_match\<close> returns the text of group 1 of the first successful alternative.
\<close>

definition star_lengths :: "bool \<Rightarrow> cls \<Rightarrow> string \<Rightarrow> nat list" where
  "star_lengths greedy c s =
     (let ks = [0 ..< Suc (length (takeWhile (in_cls c) s))]
      in if greedy then rev ks else ks)"

fun rx_match :: "item list \<Rightarrow> string \<Rightarrow> string \<Rightarrow> string option" where
  "rx_match [] s cap = Some cap"
| "rx_match (Lit l # r) s cap =
     (if prefix l s then rx_match r (drop (length l) s) cap else None)"
| "rx_match (Ahead alts # r) s cap =
     (if list_ex (\<lambda>a. alt_holds a s) alts then rx_match r s cap else None)"
| "rx_match (Star greedy capture c # r) s cap =
     first_some (\<lambda>k. rx_match r (drop k s) (if capture then take k s else cap))
       (star_lengths greedy c s)"

definition re_search :: "item list \<Rightarrow> string \<Rightarrow> string option" where
  "re_search rx s = first_some (\<lambda>i. rx_match rx (drop i s) []) [0 ..< Suc (length s)]"

text \<open>
  \<^verbatim>\<open>r"Score:\s*(.*?)\n"\<close>,
  \<^verbatim>\<open>r"Feedback:\s*(.*?)(?=\nSkill Gap:|$)"\<close>,
  \<^verbatim>\<open>r"Skill Gap:\s*(.*?)(?=\nCorrect Approach/Solution Highlights:|$)"\<close> and
  \<^verbatim>\<open>r"Correct Approach/Solution Highlights:\s*(.*)"\<close>, the last three with \<open>re.DOTALL\<close>.
\<close>

definition score_rx :: "item list" where
  "score_rx = [Lit ''Score:'', Star True False Space, Star False True Dot, Lit [CHR 0x0A]]"

definition feedback_rx :: "item list" where
  "feedback_rx = [Lit ''Feedback:'', Star True False Space, Star False True DotAll,
                  Ahead [ALit (CHR 0x0A # ''Skill Gap:''), AEnd]]"

definition skill_gap_rx :: "item list" where
  "skill_gap_rx = [Lit ''Skill Gap:'', Star True False Space, Star False True DotAll,
                   Ahead [ALit (CHR 0x0A # ''Correct Approach/Solution Highlights:''), AEnd]]"

definition solution_highlights_rx :: "item list" where
  "solution_highlights_rx = [Lit ''Correct Approach/Solution Highlights:'',
                             Star True False Space, Star True True DotAll]"

text \<open>\<open>m.group(1).strip()\<close> if the pattern is found, the fallback otherwise.\<close>

definition parse_field :: "item list \<Rightarrow> string \<Rightarrow> string \<Rightarrow> string" where
  "parse_field rx fallback raw =
     (case re_search rx raw of Some g \<Rightarrow> py_strip g | None \<Rightarrow> fallback)"

section \<open>evaluate_answer\<close>

record eval_request =
  question_text :: "string option"
  user_answer :: "string option"
  question_type :: "string option"
  correct_answer :: "string option"
  rubric :: "string option"

text \<open>An f-string prints \<open>None\<close> as the text \<open>None\<close>.\<close>

fun fmt :: "string option \<Rightarrow> string" where
  "fmt None = ''None''"
| "fmt (Some s) = s"

text \<open>\<open>{rubric if rubric else "N/A"}\<close>\<close>

definition rubric_text :: "string option \<Rightarrow> string" where
  "rubric_text r = (if truthy r then fmt r else ''N/A'')"

definition initial_result :: evaluation_result where
  "initial_result = \<lparr>score = ''N/A'', feedback = ''No evaluation performed.'',
     skill_gap = ''N/A'', solution_highlights = ''N/A'', raw_gemini_response = None\<rparr>"

text \<open>
  \<open>user_answer.strip().upper() != correct_answer.strip().upper()\<close>: \<open>.strip\<close> on \<open>None\<close>
  raises AttributeError; the left operand is evaluated first.
\<close>

fun answers_differ :: "casing \<Rightarrow> string option \<Rightarrow> string option \<Rightarrow> exn + bool" where
  "answers_differ up None _ = Inl AttributeError"
| "answers_differ up (Some u) None = Inl AttributeError"
| "answers_differ up (Some u) (Some c) =
     Inr (py_upper up (py_strip u) \<noteq> py_upper up (py_strip c))"

text \<open>\<open>not user_answer or user_answer.strip().upper() != correct_answer.strip().upper()\<close>\<close>

definition needs_explanation ::
  "casing \<Rightarrow> string option \<Rightarrow> string option \<Rightarrow> exn + bool" where
  "needs_explanation up ua ca = (if \<not> truthy ua then Inr True else answers_differ up ua ca)"

text \<open>Lines 208 to 218: the explanation of an unanswered or wrongly answered MCQ.\<close>

definition mcq_explanation ::
  "service \<Rightarrow> eval_request \<Rightarrow> evaluation_result \<Rightarrow> world \<Rightarrow> evaluation_result \<times> world" where
  "mcq_explanation orc req res w =
     (case generate_content orc
             (ExplanationPrompt (fmt (question_text req)) (fmt (correct_answer req))) w of
        (Text t, w') \<Rightarrow> (res\<lparr>solution_highlights := py_strip t\<rparr>, w')
      | (Failed e, w') \<Rightarrow>
          (res\<lparr>solution_highlights :=
                  ''Could not generate solution explanation due to an AI error.''\<rparr>, w'))"

text \<open>Lines 220 to 232: the verdict; the \<open>elif\<close> evaluates the comparison again.\<close>

definition mcq_verdict ::
  "casing \<Rightarrow> eval_request \<Rightarrow> evaluation_result \<Rightarrow> exn + evaluation_result" where
  "mcq_verdict up req res =
     (if \<not> truthy (user_answer req) then
        Inr (res\<lparr>score := ''Incorrect'', feedback := ''No answer provided.'',
                 skill_gap := ''Incomplete Answer''\<rparr>)
      else case answers_differ up (user_answer req) (correct_answer req) of
        Inl e \<Rightarrow> Inl e
      | Inr False \<Rightarrow>
          Inr (res\<lparr>score := ''Correct'', feedback := ''Your answer is correct!'',
                   skill_gap := ''N/A'', solution_highlights := ''N/A''\<rparr>)
      | Inr True \<Rightarrow>
          Inr (res\<lparr>score := ''Incorrect'', feedback := ''Your answer is incorrect.'',
                   skill_gap := ''Conceptual Understanding''\<rparr>))"

definition evaluate_mcq :: "casing \<Rightarrow> service \<Rightarrow> eval_request \<Rightarrow> world \<Rightarrow> outcome" where
  "evaluate_mcq up orc req w =
     (case needs_explanation up (user_answer req) (correct_answer req) of
        Inl e \<Rightarrow> (Inl e, w)
      | Inr b \<Rightarrow>
          (let (res, w') = (if b then mcq_explanation orc req initial_result w
                            else (initial_result, w))
           in case mcq_verdict up req res of
                Inl e \<Rightarrow> (Inl e, w')
              | Inr res' \<Rightarrow> jsonify 200 (Evaluation res') w'))"

text \<open>\<open>not user_answer or user_answer.strip() == ""\<close>\<close>

fun blank :: "string option \<Rightarrow> bool" where
  "blank None = True"
| "blank (Some u) = (u = [] \<or> py_strip u = [])"

text \<open>Lines 237 to 251: an unanswered subjective question.\<close>

definition subjective_unanswered :: "service \<Rightarrow> eval_request \<Rightarrow> world \<Rightarrow> outcome" where
  "subjective_unanswered orc req w =
     (let res = initial_result\<lparr>score := ''0/10'',
                  feedback := ''No answer provided for this subjective question.'',
                  skill_gap := ''No Answer Provided''\<rparr>
      in case generate_content orc
                (SolutionPrompt (fmt (question_text req)) (rubric_text (rubric req))) w of
           (Text t, w') \<Rightarrow> jsonify 200 (Evaluation (res\<lparr>solution_highlights := py_strip t\<rparr>)) w'
         | (Failed e, w') \<Rightarrow>
             jsonify 200 (Evaluation (res\<lparr>solution_highlights :=
                ''Could not generate solution highlights due to an AI error.''\<rparr>)) w')"

text \<open>Lines 274 to 296: the four fields parsed from the reply.\<close>

definition parse_evaluation :: "string \<Rightarrow> evaluation_result \<Rightarrow> evaluation_result" where
  "parse_evaluation raw res =
     res\<lparr>score := parse_field score_rx ''N/A'' raw,
         feedback := parse_field feedback_rx ''Could not parse detailed feedback from AI.'' raw,
         skill_gap :=
           parse_field skill_gap_rx ''Could not parse skill gap analysis from AI.'' raw,
         solution_highlights :=
           parse_field solution_highlights_rx
             ''Could not parse solution highlights from AI.'' raw\<rparr>"

text \<open>Lines 253 to 301: an answered subjective question.\<close>

definition subjective_answered :: "service \<Rightarrow> eval_request \<Rightarrow> world \<Rightarrow> outcome" where
  "subjective_answered orc req w =
     (case generate_content orc
             (SubjectiveEvalPrompt (fmt (question_text req)) (fmt (user_answer req))
                (rubric_text (rubric req))) w of
        (Text raw, w') \<Rightarrow> jsonify 200 (Evaluation (parse_evaluation raw initial_result)) w'
      | (Failed e, w') \<Rightarrow>
          jsonify 200 (Evaluation (initial_result\<lparr>
            feedback := ''Failed to evaluate subjective answer due to an AI error.'',
            raw_gemini_response := Some e\<rparr>)) w')"

definition coding_placeholder :: evaluation_result where
  "coding_placeholder = initial_result\<lparr>score := ''N/A'',
     feedback := ''Coding test evaluation is a complex feature that requires a secure execution environment and test cases. This is a placeholder.'',
     skill_gap := ''Not applicable for placeholder coding evaluation.'',
     solution_highlights := ''N/A''\<rparr>"

definition evaluate_answer :: "casing \<Rightarrow> service \<Rightarrow> eval_request \<Rightarrow> world \<Rightarrow> outcome" where
  "evaluate_answer up orc req w =
     (if \<not> (truthy (question_text req) \<and> truthy (question_type req)) then
        jsonify 400 (ErrorBody ''Missing essential question parameters for evaluation.'') w
      else if question_type req = Some ''mcq'' then evaluate_mcq up orc req w
      else if question_type req = Some ''subjective'' then
        (if blank (user_answer req) then subjective_unanswered orc req w
         else subjective_answered orc req w)
      else if question_type req = Some ''coding'' then
        jsonify 200 (Evaluation coding_placeholder) w
      else jsonify 400 (ErrorBody ''Invalid question type.'') w)"

section \<open>check_plagiarism and recommend_tests\<close>

text \<open>
  The \<open>user_answer\<close> of a plagiarism request is the field \<open>answer\<close> here, since
  \<open>user_answer\<close> already names the field of an evaluation request.
\<close>

record plagiarism_request =
  answer :: "string option"
  known_corpus :: "string list option"

text \<open>
  \<open>data.get('known_corpus', [])\<close>: an absent key and a JSON \<open>null\<close> are both \<open>None\<close> here;
  either is as false as the empty list.
\<close>

fun nonempty :: "'a list option \<Rightarrow> bool" where
  "nonempty None = False"
| "nonempty (Some xs) = (xs \<noteq> [])"

fun items :: "'a list option \<Rightarrow> 'a list" where
  "items None = []"
| "items (Some xs) = xs"

definition check_plagiarism :: "service \<Rightarrow> plagiarism_request \<Rightarrow> world \<Rightarrow> outcome" where
  "check_plagiarism orc req w =
     (if \<not> truthy (answer req) then
        jsonify 400 (ErrorBody ''No answer provided for plagiarism check.'') w
      else if nonempty (known_corpus req) then
        (case generate_content orc
                (PlagiarismPrompt (fmt (answer req))
                   (py_join [CHR 0x0A] (items (known_corpus req)))) w of
           (Text t, w') \<Rightarrow> jsonify 200 (PlagiarismReport t) w'
         | (Failed e, w') \<Rightarrow>
             jsonify 500 (ErrorBody ''Failed to check plagiarism due to AI error.'') w')
      else jsonify 200 (PlagiarismReport
             ''No corpus provided for comparison. Cannot perform a detailed plagiarism check.'') w)"

text \<open>\<open>user_profile\<close> is carried as the text the f-string prints for it; \<open>{}\<close> when absent.\<close>

record recommend_request =
  skill_gaps :: "string list option"
  user_profile :: "string option"

definition recommend_tests :: "service \<Rightarrow> recommend_request \<Rightarrow> world \<Rightarrow> outcome" where
  "recommend_tests orc req w =
     (if \<not> nonempty (skill_gaps req) then
        jsonify 200 (Recommendations
          ''No specific skill gaps identified to recommend new tests.'') w
      else
        (case generate_content orc
                (RecommendationPrompt (py_join '', '' (items (skill_gaps req)))
                   (case user_profile req of None \<Rightarrow> ''{}'' | Some p \<Rightarrow> p)) w of
           (Text t, w') \<Rightarrow> jsonify 200 (Recommendations t) w'
         | (Failed e, w') \<Rightarrow>
             jsonify 500 (ErrorBody ''Failed to generate recommendations due to AI error.'') w'))"

section \<open>Float arithmetic of the question counts\<close>

text \<open>
  \<open>round(total_questions * 2 / 3)\<close>: the product is an exact integer, \<open>/\<close> on two
  integers is the quotient rounded to the nearest binary64 float (ties to even), with
  OverflowError when the rounded quotient does not fit, and \<open>round\<close> of a float is the
  nearest integer (ties to even). A finite float is a pair \<open>(m, k)\<close> standing for
  \<open>m * 2 ^ k\<close>.
\<close>

type_synonym pyfloat = "int \<times> int"

text \<open>\<open>rne num den\<close>: the integer nearest to \<open>num / den\<close> for \<open>den > 0\<close>, ties to even.\<close>

definition rne :: "int \<Rightarrow> int \<Rightarrow> int" where
  "rne num den =
     (let d = num div den; r = num mod den
      in if 2 * r < den then d
         else if den < 2 * r then d + 1
         else if even d then d else d + 1)"

text \<open>The exponent of the leading bit of \<open>x / y\<close>, for positive \<open>x\<close> and \<open>y\<close>.\<close>

definition quotient_exponent :: "int \<Rightarrow> int \<Rightarrow> int" where
  "quotient_exponent x y =
     (let l = bitlen x - bitlen y
      in if (if 0 \<le> l then y * 2 ^ nat l \<le> x else y \<le> x * 2 ^ nat (- l)) then l else l - 1)"

definition py_truediv :: "int \<Rightarrow> int \<Rightarrow> exn + pyfloat" where
  "py_truediv a b =
     (if b = 0 then Inl ZeroDivisionError
      else if a = 0 then Inr (0, 0)
      else
        (let x = \<bar>a\<bar>; y = \<bar>b\<bar>;
             k = max (quotient_exponent x y - 52) (- 1074);
             m = (if 0 \<le> k then rne x (y * 2 ^ nat k) else rne (x * 2 ^ nat (- k)) y)
         in if 0 \<le> k \<and> 2 ^ 1024 \<le> m * 2 ^ nat k then Inl OverflowError
            else Inr (sgn a * sgn b * m, k)))"

fun py_round :: "pyfloat \<Rightarrow> int" where
  "py_round (m, k) = (if 0 \<le> k then m * 2 ^ nat k else rne m (2 ^ nat (- k)))"

section \<open>generate_assessment\<close>

text \<open>
  A form field that the handler converts (\<open>int(...)\<close>, \<open>json.loads(...)\<close>): absent, text
  that the conversion rejects, or the converted value. \<open>question_types\<close> converts to a
  list of strings.
\<close>

datatype 'a field = Absent | Malformed | Given 'a

record upload =
  filename :: string
  content :: string

record gen_request =
  topic :: "string option"
  total_questions :: "int field"
  difficulty :: "string option"
  question_types :: "string list field"
  syllabus_pdf :: "upload option"

text \<open>
  What the handler gets from outside the request: the name of the temporary file that
  \<open>NamedTemporaryFile\<close> creates, whether writing the upload to it raises, and the text
  that PyPDF2 extracts from a file's content (\<open>None\<close> when it raises).
\<close>

record gen_env =
  tmp_name :: string
  save_raises :: bool
  extract_text :: "string \<Rightarrow> string option"

text \<open>\<open>parse_pdf\<close> catches every exception of opening and reading and returns \<open>None\<close>.\<close>

definition parse_pdf :: "gen_env \<Rightarrow> world \<Rightarrow> string \<Rightarrow> string option" where
  "parse_pdf env w file_path =
     (case files w file_path of None \<Rightarrow> None | Some data \<Rightarrow> extract_text env data)"

text \<open>A werkzeug \<open>FileStorage\<close> is true when it has a file name.\<close>

fun uploaded :: "upload option \<Rightarrow> bool" where
  "uploaded None = False"
| "uploaded (Some u) = (filename u \<noteq> [])"

definition write_file :: "string \<Rightarrow> string \<Rightarrow> world \<Rightarrow> world" where
  "write_file path data w = w\<lparr>files := (files w)(path \<mapsto> data)\<rparr>"

definition unlink :: "string \<Rightarrow> world \<Rightarrow> world" where
  "unlink path w = w\<lparr>files := (files w)(path := None)\<rparr>"

text \<open>
  Lines 73 to 78. The temporary file is created empty; \<open>syllabus_file.save\<close> writes the
  upload into it or raises, and an exception leaves the handler at once; otherwise the
  file is parsed and then unlinked.
\<close>

definition load_syllabus :: "gen_env \<Rightarrow> upload \<Rightarrow> world \<Rightarrow> (exn + string option) \<times> world" where
  "load_syllabus env u w =
     (let w1 = write_file (tmp_name env) [] w
      in if save_raises env then (Inl OSError, w1)
         else
           (let w2 = write_file (tmp_name env) (content u) w1;
                context_content = parse_pdf env w2 (tmp_name env)
            in (Inr context_content, unlink (tmp_name env) w2)))"

text \<open>Lines 97 to 107: the counts when both types are selected.\<close>

definition both_counts :: "int \<Rightarrow> exn + int \<times> int" where
  "both_counts n =
     (case py_truediv (n * 2) 3 of
        Inl e \<Rightarrow> Inl e
      | Inr q \<Rightarrow>
          (let num_mcqs = py_round q;
               num_subjective = n - num_mcqs
           in if 0 < n then
                (let num_mcqs = (if num_mcqs = 0 then 1 else num_mcqs);
                     num_subjective = (if num_subjective = 0 then 1 else num_subjective)
                 in if n < num_mcqs + num_subjective then
                      (if num_subjective < num_mcqs then Inr (n - num_subjective, num_subjective)
                       else Inr (num_mcqs, n - num_mcqs))
                    else Inr (num_mcqs, num_subjective))
              else Inr (num_mcqs, num_subjective)))"

text \<open>Lines 95 to 118; \<open>None\<close> when no valid question type is selected.\<close>

definition question_counts :: "string list \<Rightarrow> int \<Rightarrow> exn + (int \<times> int) option" where
  "question_counts qts n =
     (if ''mcq'' \<in> set qts \<and> ''subjective'' \<in> set qts then
        (case both_counts n of Inl e \<Rightarrow> Inl e | Inr c \<Rightarrow> Inr (Some c))
      else if ''mcq'' \<in> set qts then Inr (Some (n, 0))
      else if ''subjective'' \<in> set qts then Inr (Some (0, n))
      else Inr None)"

definition generation_failed :: "world \<Rightarrow> outcome" where
  "generation_failed w =
     jsonify 500 (ErrorBody ''Failed to generate assessment. Please try again.'') w"

text \<open>Lines 121 to 182: at most two calls, any exception of which gives the 500 response.\<close>

definition generate_questions ::
  "service \<Rightarrow> string \<Rightarrow> string \<Rightarrow> string \<Rightarrow> int \<times> int \<Rightarrow> world \<Rightarrow> outcome" where
  "generate_questions orc base diff ctx c w =
     (case (if 0 < fst c then generate_content orc (McqPrompt base (fst c) diff ctx) w
            else (Text [], w)) of
        (Failed e, w1) \<Rightarrow> generation_failed w1
      | (Text mcqs_generated_text, w1) \<Rightarrow>
          (case (if 0 < snd c then
                   generate_content orc (SubjectivePrompt base (snd c) diff ctx) w1
                 else (Text [], w1)) of
             (Failed e, w2) \<Rightarrow> generation_failed w2
           | (Text subjective_generated_text, w2) \<Rightarrow>
               jsonify 200 (Assessment mcqs_generated_text subjective_generated_text) w2))"

definition syllabus_instruction :: string where
  "syllabus_instruction = ''Derive questions from the content and topics described within the following syllabus. Do NOT ask questions ABOUT the syllabus document (e.g., about its structure, objectives count, or sections).''"

definition topic_instruction :: "string \<Rightarrow> string" where
  "topic_instruction t = ''Generate questions for the topic '' @ [CHR 0x22] @ t @ [CHR 0x22] @ ''.''"

text \<open>Lines 89 to 182, once the instruction and the context are known.\<close>

definition count_and_generate ::
  "service \<Rightarrow> gen_request \<Rightarrow> int \<Rightarrow> string list \<Rightarrow> string \<Rightarrow> string \<Rightarrow> world \<Rightarrow> outcome" where
  "count_and_generate orc req n qts base ctx w =
     (case question_counts qts n of
        Inl e \<Rightarrow> (Inl e, w)
      | Inr None \<Rightarrow> jsonify 400 (ErrorBody ''No valid question type selected.'') w
      | Inr (Some c) \<Rightarrow>
          generate_questions orc base
            (case difficulty req of None \<Rightarrow> ''medium'' | Some d \<Rightarrow> d) ctx c w)"

definition generate_assessment :: "gen_env \<Rightarrow> service \<Rightarrow> gen_request \<Rightarrow> world \<Rightarrow> outcome" where
  "generate_assessment env orc req w =
     (case total_questions req of
        Malformed \<Rightarrow> (Inl ValueError, w)
      | tq \<Rightarrow>
         (let n = (case tq of Given i \<Rightarrow> i | _ \<Rightarrow> 10)
          in case question_types req of
               Malformed \<Rightarrow> jsonify 400 (ErrorBody ''Invalid question_types parameter.'') w
             | qf \<Rightarrow>
                (let qts = (case qf of Given l \<Rightarrow> l | _ \<Rightarrow> [''both''])
                 in case syllabus_pdf req of
                      Some u \<Rightarrow>
                        (if uploaded (Some u) then
                           (case load_syllabus env u w of
                              (Inl e, w') \<Rightarrow> (Inl e, w')
                            | (Inr context_content, w') \<Rightarrow>
                                (if \<not> truthy context_content then
                                   jsonify 500 (ErrorBody ''Failed to parse PDF syllabus.'') w'
                                 else count_and_generate orc req n qts syllabus_instruction
                                        (fmt context_content) w'))
                         else if truthy (topic req) then
                           count_and_generate orc req n qts
                             (topic_instruction (fmt (topic req))) ''N/A'' w
                         else jsonify 400
                                (ErrorBody ''Please provide a topic or upload a syllabus PDF.'') w)
                    | None \<Rightarrow>
                        (if truthy (topic req) then
                           count_and_generate orc req n qts
                             (topic_instruction (fmt (topic req))) ''N/A'' w
                         else jsonify 400
                                (ErrorBody ''Please provide a topic or upload a syllabus PDF.'') w))))"

section \<open>Vocabulary of the statements\<close>

text \<open>The world after one more prompt has been sent.\<close>

definition asked :: "prompt \<Rightarrow> world \<Rightarrow> world" where
  "asked p w = w\<lparr>calls := calls w @ [p]\<rparr>"

text \<open>The next reply of the service to a prompt, in a world.\<close>

definition next_reply :: "service \<Rightarrow> prompt \<Rightarrow> world \<Rightarrow> reply" where
  "next_reply orc p w = orc (length (calls w)) p"

text \<open>The field that a non-critical call fills: the stripped reply, or a fixed text.\<close>

fun stripped_or :: "string \<Rightarrow> reply \<Rightarrow> string" where
  "stripped_or fixed (Text t) = py_strip t"
| "stripped_or fixed (Failed e) = fixed"

definition explanation_prompt :: "eval_request \<Rightarrow> prompt" where
  "explanation_prompt req =
     ExplanationPrompt (fmt (question_text req)) (fmt (correct_answer req))"

definition solution_prompt :: "eval_request \<Rightarrow> prompt" where
  "solution_prompt req = SolutionPrompt (fmt (question_text req)) (rubric_text (rubric req))"

definition evaluation_prompt :: "eval_request \<Rightarrow> prompt" where
  "evaluation_prompt req =
     SubjectiveEvalPrompt (fmt (question_text req)) (fmt (user_answer req))
       (rubric_text (rubric req))"

text \<open>The evaluation result that an outcome carries, if it carries one.\<close>

fun result_of :: "outcome \<Rightarrow> evaluation_result option" where
  "result_of (Inr r, w) = (case body r of Evaluation res \<Rightarrow> Some res | _ \<Rightarrow> None)"
| "result_of (Inl e, w) = None"

text \<open>
  What an outcome shows of an MCQ verdict: the escaped exception, or the status together
  with score, feedback and skill gap.
\<close>

fun verdict_of :: "outcome \<Rightarrow> exn + nat \<times> (string \<times> string \<times> string) option" where
  "verdict_of (Inl e, w) = Inl e"
| "verdict_of (Inr r, w) =
     Inr (status r, case body r of
                      Evaluation res \<Rightarrow> Some (score res, feedback res, skill_gap res)
                    | _ \<Rightarrow> None)"

text \<open>An empty world.\<close>

definition w0 :: world where
  "w0 = \<lparr>files = Map.empty, calls = []\<rparr>"

text \<open>
  The case table on ASCII, where Unicode maps the letters a to z to A to Z and every other
  character to itself. It stands for the case table in the concrete examples, whose
  answers are ASCII text; outside ASCII it says nothing about \<open>str.upper\<close>.
\<close>

definition upper_of_ascii :: casing where
  "upper_of_ascii c =
     (let n = (of_char c :: nat) in if 97 \<le> n \<and> n \<le> 122 then [n - 32] else [n])"

text \<open>
  Some call that was made between two worlds failed: the prompts logged after \<open>w\<close> are
  those of the calls made since, and the service's answer to one of them is a failure.
\<close>

fun is_failed :: "reply \<Rightarrow> bool" where
  "is_failed (Failed e) = True"
| "is_failed (Text t) = False"

definition failed_call :: "service \<Rightarrow> world \<Rightarrow> world \<Rightarrow> bool" where
  "failed_call orc w w' =
     list_ex (\<lambda>i. is_failed (orc i (calls w' ! i))) [length (calls w) ..< length (calls w')]"

text \<open>The message of a failed call.\<close>

fun error_of :: "reply \<Rightarrow> string option" where
  "error_of (Failed e) = Some e"
| "error_of (Text t) = None"

text \<open>
  What the four searches of the source compute, as functions on lists (the lemmas of the
  section on the parser prove them equal to the regular expressions): a field is
  extracted by locating its literal label and capturing the text that follows up to a
  stop; the capture is stripped; a field without label (or without capture) gets its
  fallback.

  \<open>after_label l s\<close> is the text after the first occurrence of the label.
\<close>

fun after_label :: "string \<Rightarrow> string \<Rightarrow> string option" where
  "after_label l [] = (if l = [] then Some [] else None)"
| "after_label l (c # cs) =
     (if prefix l (c # cs) then Some (drop (length l) (c # cs)) else after_label l cs)"

text \<open>The text up to the first place where one of the stops holds, all of it if none does.\<close>

fun up_to :: "alt list \<Rightarrow> string \<Rightarrow> string" where
  "up_to alts [] = []"
| "up_to alts (c # cs) =
     (if list_ex (\<lambda>a. alt_holds a (c # cs)) alts then [] else c # up_to alts cs)"

text \<open>
  The capture of the score: after the white space that follows the label, the rest of
  the line; nothing when the white space already holds the last newline of the text; no
  capture when no newline follows the label at all.
\<close>

definition rest_of_line :: "string \<Rightarrow> string option" where
  "rest_of_line rest =
     (let line = dropWhile py_isspace rest
      in if CHR 0x0A \<in> set line then Some (takeWhile (\<lambda>c. c \<noteq> CHR 0x0A) line)
         else if CHR 0x0A \<in> set rest then Some []
         else None)"

definition field_after ::
  "string \<Rightarrow> (string \<Rightarrow> string option) \<Rightarrow> string \<Rightarrow> string \<Rightarrow> string" where
  "field_after label capture fallback raw =
     (case Option.bind (after_label label raw) capture of
        None \<Rightarrow> fallback
      | Some g \<Rightarrow> py_strip g)"

text \<open>
  The capture of feedback and skill gap: after the white space that follows the label,
  the text up to the next label at the start of a line, or to the end of the text.
\<close>

definition up_to_label :: "string \<Rightarrow> string \<Rightarrow> string option" where
  "up_to_label next_label rest =
     Some (up_to [ALit (CHR 0x0A # next_label), AEnd] (dropWhile py_isspace rest))"

definition extract_fields :: "string \<Rightarrow> evaluation_result" where
  "extract_fields raw =
     \<lparr>score = field_after ''Score:'' rest_of_line ''N/A'' raw,
      feedback = field_after ''Feedback:'' (up_to_label ''Skill Gap:'')
                   ''Could not parse detailed feedback from AI.'' raw,
      skill_gap = field_after ''Skill Gap:''
                    (up_to_label ''Correct Approach/Solution Highlights:'')
                    ''Could not parse skill gap analysis from AI.'' raw,
      solution_highlights =
        field_after ''Correct Approach/Solution Highlights:''
          (\<lambda>rest. Some (dropWhile py_isspace rest))
          ''Could not parse solution highlights from AI.'' raw,
      raw_gemini_response = None\<rparr>"

text \<open>
  The reply format that the evaluation prompt asks for, in the words of the
  specification: the four known labels in their order, "Score:" at the start of the text
  and each of the others at the start of a later line, each followed by its text. A text
  is free of labels when none of the known labels occurs in it.
\<close>

definition known_labels :: "string list" where
  "known_labels = [''Score:'', ''Feedback:'', ''Skill Gap:'',
                   ''Correct Approach/Solution Highlights:'']"

definition label_free :: "string \<Rightarrow> bool" where
  "label_free s = list_all (\<lambda>l. \<not> sublist l s) known_labels"

definition reply_in_format :: "string \<Rightarrow> string \<Rightarrow> string \<Rightarrow> string \<Rightarrow> string" where
  "reply_in_format a b c d =
     ''Score:'' @ a @ CHR 0x0A # ''Feedback:'' @ b @ CHR 0x0A # ''Skill Gap:'' @ c
     @ CHR 0x0A # ''Correct Approach/Solution Highlights:'' @ d"

text \<open>A reply in that format.\<close>

definition reply_as_requested :: string where
  "reply_as_requested =
     reply_in_format '' 7/10'' '' Good start.'' '' Recursion depth.''
       '' Name the base case.''"

text \<open>A reply of the model that lacks the label of the skill gap.\<close>

definition reply_without_skill_gap :: string where
  "reply_without_skill_gap =
     ''Score: 7/10'' @ [CHR 0x0A] @ ''Feedback: Good start.'' @ [CHR 0x0A]
     @ ''Correct Approach/Solution Highlights: Name the base case.''"

text \<open>
  The allocation of the question counts in the words of the specification, to be compared
  with lines 97 to 107 of the source: from the rounded two thirds of the total and the
  remainder, for a total above 0 each count is forced to at least 1 and, when the forced
  minimums push the sum above the total, the larger count is shrunk so that the sum is the
  total.
\<close>

definition allocation :: "int \<Rightarrow> int \<Rightarrow> int \<times> int" where
  "allocation n rounded =
     (let num_mcq = rounded; num_subjective = n - num_mcq
      in if 0 < n then
           (let forced_mcq = max 1 num_mcq; forced_subjective = max 1 num_subjective
            in if n < forced_mcq + forced_subjective then
                 (if forced_subjective < forced_mcq
                  then (n - forced_subjective, forced_subjective)
                  else (forced_mcq, n - forced_mcq))
               else (forced_mcq, forced_subjective))
         else (num_mcq, num_subjective))"

section \<open>Evaluation of multiple-choice answers\<close>

lemma mcq_explanation_eq:
  "mcq_explanation orc req res w =
     (res\<lparr>solution_highlights :=
             stripped_or ''Could not generate solution explanation due to an AI error.''
               (next_reply orc (explanation_prompt req) w)\<rparr>,
      asked (explanation_prompt req) w)"
  by (simp add: mcq_explanation_def generate_content_def next_reply_def asked_def
        explanation_prompt_def split: reply.splits)

lemma evaluate_answer_mcq:
  assumes "truthy (question_text req)" and "question_type req = Some ''mcq''"
  shows "evaluate_answer up orc req w = evaluate_mcq up orc req w"
  using assms by (simp add: evaluate_answer_def)

lemma evaluate_mcq_unanswered:
  assumes "\<not> truthy (user_answer req)"
  shows "evaluate_mcq up orc req w =
           jsonify 200 (Evaluation \<lparr>score = ''Incorrect'', feedback = ''No answer provided.'',
              skill_gap = ''Incomplete Answer'',
              solution_highlights =
                stripped_or ''Could not generate solution explanation due to an AI error.''
                  (next_reply orc (explanation_prompt req) w),
              raw_gemini_response = None\<rparr>)
             (asked (explanation_prompt req) w)"
  using assms
  by (simp add: evaluate_mcq_def needs_explanation_def mcq_explanation_eq mcq_verdict_def
        initial_result_def)

lemma evaluate_mcq_match:
  assumes "user_answer req = Some u" and "u \<noteq> []" and "correct_answer req = Some c"
    and "py_upper up (py_strip u) = py_upper up (py_strip c)"
  shows "evaluate_mcq up orc req w =
           jsonify 200 (Evaluation \<lparr>score = ''Correct'', feedback = ''Your answer is correct!'',
              skill_gap = ''N/A'', solution_highlights = ''N/A'',
              raw_gemini_response = None\<rparr>) w"
  using assms
  by (simp add: evaluate_mcq_def needs_explanation_def mcq_verdict_def initial_result_def)

lemma evaluate_mcq_mismatch:
  assumes "user_answer req = Some u" and "u \<noteq> []" and "correct_answer req = Some c"
    and "py_upper up (py_strip u) \<noteq> py_upper up (py_strip c)"
  shows "evaluate_mcq up orc req w =
           jsonify 200 (Evaluation \<lparr>score = ''Incorrect'',
              feedback = ''Your answer is incorrect.'',
              skill_gap = ''Conceptual Understanding'',
              solution_highlights =
                stripped_or ''Could not generate solution explanation due to an AI error.''
                  (next_reply orc (explanation_prompt req) w),
              raw_gemini_response = None\<rparr>)
             (asked (explanation_prompt req) w)"
  using assms
  by (simp add: evaluate_mcq_def needs_explanation_def mcq_explanation_eq mcq_verdict_def
        initial_result_def)

lemma evaluate_mcq_no_key:
  assumes "user_answer req = Some u" and "u \<noteq> []" and "correct_answer req = None"
  shows "evaluate_mcq up orc req w = (Inl AttributeError, w)"
  using assms by (simp add: evaluate_mcq_def needs_explanation_def)

lemma upper_strip_c:
  "py_upper upper_of_ascii (py_strip ''c'') = py_upper upper_of_ascii (py_strip ''C'')"
  by code_simp

lemma upper_strip_nbsp_c:
  "py_upper upper_of_ascii (py_strip [CHR 0xA0, CHR ''c''])
     = py_upper upper_of_ascii (py_strip ''C'')"
  by code_simp

lemma upper_strip_B:
  "py_upper upper_of_ascii (py_strip []) \<noteq> py_upper upper_of_ascii (py_strip ''B'')"
  by code_simp

text \<open>
  C2, as amended. For every evaluate request that passes the check of the essential
  parameters (a non-empty question text) with question type "mcq" and a correct answer
  present: if the user answer is absent or the empty string, the result is score
  "Incorrect", feedback "No answer provided.", skill gap "Incomplete Answer", and the
  solution highlights are the stripped explanation of the model (a fixed text if that
  call fails); if the user answer is not empty and equals the correct answer after
  trimming white space and ignoring case, the result is "Correct", "Your answer is
  correct!", "N/A", "N/A", and no call is made; otherwise the result is "Incorrect",
  "Your answer is incorrect.", "Conceptual Understanding", with the explanation as
  solution highlights. Trimming is \<open>str.strip\<close>, which removes the white space of
  Unicode at both ends, and two answers are equal up to case when \<open>str.upper\<close> gives
  the same text for both, whatever the case table \<open>up\<close> of the runtime is.
\<close>

theorem mcq_evaluation_table:
  assumes "truthy (question_text req)" and "question_type req = Some ''mcq''"
    and "correct_answer req = Some c"
  shows "evaluate_answer up orc req w =
     (if \<not> truthy (user_answer req) then
        jsonify 200 (Evaluation \<lparr>score = ''Incorrect'', feedback = ''No answer provided.'',
           skill_gap = ''Incomplete Answer'',
           solution_highlights =
             stripped_or ''Could not generate solution explanation due to an AI error.''
               (next_reply orc (explanation_prompt req) w),
           raw_gemini_response = None\<rparr>)
          (asked (explanation_prompt req) w)
      else if py_upper up (py_strip (fmt (user_answer req))) = py_upper up (py_strip c) then
        jsonify 200 (Evaluation \<lparr>score = ''Correct'', feedback = ''Your answer is correct!'',
           skill_gap = ''N/A'', solution_highlights = ''N/A'',
           raw_gemini_response = None\<rparr>) w
      else
        jsonify 200 (Evaluation \<lparr>score = ''Incorrect'',
           feedback = ''Your answer is incorrect.'',
           skill_gap = ''Conceptual Understanding'',
           solution_highlights =
             stripped_or ''Could not generate solution explanation due to an AI error.''
               (next_reply orc (explanation_prompt req) w),
           raw_gemini_response = None\<rparr>)
          (asked (explanation_prompt req) w))"
proof (cases "user_answer req")
  case None
  then have "\<not> truthy (user_answer req)" by simp
  then show ?thesis
    using evaluate_mcq_unanswered [where req = req and up = up and orc = orc and w = w] evaluate_answer_mcq [OF assms(1,2)] by simp
next
  case (Some u)
  show ?thesis
  proof (cases "u = []")
    case True
    with Some have "\<not> truthy (user_answer req)" by simp
    then show ?thesis
      using evaluate_mcq_unanswered [where req = req and up = up and orc = orc and w = w] evaluate_answer_mcq [OF assms(1,2)] by simp
  next
    case False
    with Some have t: "truthy (user_answer req)" and f: "fmt (user_answer req) = u" by simp_all
    show ?thesis
    proof (cases "py_upper up (py_strip u) = py_upper up (py_strip c)")
      case True
      then show ?thesis
        using evaluate_mcq_match [OF Some False assms(3) True, where orc = orc and w = w]
          evaluate_answer_mcq [OF assms(1,2)] t f by simp
    next
      case ne: False
      then show ?thesis
        using evaluate_mcq_mismatch [OF Some False assms(3) ne, where orc = orc and w = w]
          evaluate_answer_mcq [OF assms(1,2)] t f by simp
    qed
  qed
qed

text \<open>
  The answer "c" matches the correct answer "C", and so does "c" after a no-break space
  (U+00A0), which \<open>str.strip\<close> removes.
\<close>

theorem mcq_evaluation_table_witness:
  "evaluate_answer upper_of_ascii (\<lambda>i p. Text ''unused'')
     \<lparr>question_text = Some ''Q1. What is the capital of France?'', user_answer = Some ''c'',
      question_type = Some ''mcq'', correct_answer = Some ''C'', rubric = None\<rparr> w0 =
   jsonify 200 (Evaluation \<lparr>score = ''Correct'', feedback = ''Your answer is correct!'',
      skill_gap = ''N/A'', solution_highlights = ''N/A'', raw_gemini_response = None\<rparr>) w0
   \<and> evaluate_answer upper_of_ascii (\<lambda>i p. Text ''unused'')
     \<lparr>question_text = Some ''Q1. What is the capital of France?'',
      user_answer = Some [CHR 0xA0, CHR ''c''],
      question_type = Some ''mcq'', correct_answer = Some ''C'', rubric = None\<rparr> w0 =
   jsonify 200 (Evaluation \<lparr>score = ''Correct'', feedback = ''Your answer is correct!'',
      skill_gap = ''N/A'', solution_highlights = ''N/A'', raw_gemini_response = None\<rparr>) w0"
  using mcq_evaluation_table [where req =
      "\<lparr>question_text = Some ''Q1. What is the capital of France?'', user_answer = Some ''c'',
        question_type = Some ''mcq'', correct_answer = Some ''C'', rubric = None\<rparr>"
      and c = "''C''" and up = upper_of_ascii and orc = "\<lambda>i p. Text ''unused''" and w = w0]
    mcq_evaluation_table [where req =
      "\<lparr>question_text = Some ''Q1. What is the capital of France?'',
        user_answer = Some [CHR 0xA0, CHR ''c''],
        question_type = Some ''mcq'', correct_answer = Some ''C'', rubric = None\<rparr>"
      and c = "''C''" and up = upper_of_ascii and orc = "\<lambda>i p. Text ''unused''" and w = w0]
  by (simp add: upper_strip_c upper_strip_nbsp_c)

text \<open>
  C2 as stated fails when the user answer is present but empty: the answer differs from
  the correct answer "B" after trimming and ignoring case, yet the feedback is not
  "Your answer is incorrect." and the skill gap is not "Conceptual Understanding".
\<close>

theorem mcq_empty_answer_counterexample:
  "user_answer \<lparr>question_text = Some ''Q1'', user_answer = Some [],
      question_type = Some ''mcq'', correct_answer = Some ''B'', rubric = None\<rparr> \<noteq> None
   \<and> py_upper upper_of_ascii (py_strip []) \<noteq> py_upper upper_of_ascii (py_strip ''B'')
   \<and> result_of (evaluate_answer upper_of_ascii (\<lambda>i p. Text ''B is right.'')
        \<lparr>question_text = Some ''Q1'', user_answer = Some [],
         question_type = Some ''mcq'', correct_answer = Some ''B'', rubric = None\<rparr> w0)
     = Some \<lparr>score = ''Incorrect'', feedback = ''No answer provided.'',
         skill_gap = ''Incomplete Answer'', solution_highlights = py_strip ''B is right.'',
         raw_gemini_response = None\<rparr>
   \<and> ''No answer provided.'' \<noteq> ''Your answer is incorrect.''
   \<and> ''Incomplete Answer'' \<noteq> ''Conceptual Understanding''"
  by (simp add: upper_strip_B evaluate_answer_def evaluate_mcq_unanswered jsonify_def
        next_reply_def)

text \<open>
  C10. In the mcq branch, with a question text and a non-empty user answer, a request
  without a correct answer makes the handler raise AttributeError (\<open>.strip\<close> on
  \<open>None\<close>) before any call and without any response; with a correct answer the branch
  always returns a response. So the branch returns a response exactly when the correct
  answer is present or the user answer is missing.
\<close>

theorem mcq_total_iff_correct_answer:
  assumes "truthy (question_text req)" and "question_type req = Some ''mcq''"
  shows "(correct_answer req = None \<and> truthy (user_answer req)
            \<longrightarrow> evaluate_answer up orc req w = (Inl AttributeError, w))
       \<and> ((\<exists>r w'. evaluate_answer up orc req w = (Inr r, w'))
            \<longleftrightarrow> (correct_answer req \<noteq> None \<or> \<not> truthy (user_answer req)))"
proof -
  have e: "evaluate_answer up orc req w = evaluate_mcq up orc req w"
    by (rule evaluate_answer_mcq [OF assms])
  show ?thesis
  proof (cases "truthy (user_answer req)")
    case False
    then show ?thesis
      using evaluate_mcq_unanswered [where req = req and up = up and orc = orc and w = w] e by (simp add: jsonify_def)
  next
    case True
    then obtain u where u: "user_answer req = Some u" "u \<noteq> []"
      by (cases "user_answer req") auto
    show ?thesis
    proof (cases "correct_answer req")
      case None
      then show ?thesis
        using evaluate_mcq_no_key [OF u None, where up = up and orc = orc and w = w] e True
        by simp
    next
      case (Some c)
      then show ?thesis
        using evaluate_mcq_match [OF u Some, where up = up and orc = orc and w = w]
          evaluate_mcq_mismatch [OF u Some, where up = up and orc = orc and w = w] e
        by (cases "py_upper up (py_strip u) = py_upper up (py_strip c)") (simp_all add: jsonify_def)
    qed
  qed
qed

theorem mcq_total_iff_correct_answer_witness:
  "truthy (Some ''Q1'') \<and> truthy (Some ''A'')
   \<and> evaluate_answer upper_of_ascii (\<lambda>i p. Text ''unused'')
         \<lparr>question_text = Some ''Q1'', user_answer = Some ''A'',
          question_type = Some ''mcq'', correct_answer = None, rubric = None\<rparr> w0
       = (Inl AttributeError, w0)"
  using mcq_total_iff_correct_answer [where req =
      "\<lparr>question_text = Some ''Q1'', user_answer = Some ''A'',
        question_type = Some ''mcq'', correct_answer = None, rubric = None\<rparr>"
      and up = upper_of_ascii and orc = "\<lambda>i p. Text ''unused''" and w = w0]
  by simp

lemma verdict_of_jsonify:
  "verdict_of (jsonify st (Evaluation res) w) = Inr (st, Some (score res, feedback res, skill_gap res))"
  "verdict_of (jsonify st (ErrorBody msg) w) = Inr (st, None)"
  by (simp_all add: jsonify_def)

lemma verdict_of_evaluate_mcq:
  "verdict_of (evaluate_mcq up orc req w) =
     (case mcq_verdict up req initial_result of
        Inl e \<Rightarrow> Inl e
      | Inr res \<Rightarrow> Inr (200, Some (score res, feedback res, skill_gap res)))"
proof (cases "truthy (user_answer req)")
  case False
  then show ?thesis
    by (simp add: evaluate_mcq_unanswered verdict_of_jsonify mcq_verdict_def)
next
  case True
  show ?thesis
  proof (cases "answers_differ up (user_answer req) (correct_answer req)")
    case (Inl e)
    with True show ?thesis
      by (simp add: evaluate_mcq_def needs_explanation_def mcq_verdict_def)
  next
    case (Inr b)
    with True show ?thesis
      by (cases b)
        (simp_all add: evaluate_mcq_def needs_explanation_def mcq_explanation_eq
           mcq_verdict_def verdict_of_jsonify)
  qed
qed

lemma mcq_verdict_cong:
  assumes "user_answer r1 = user_answer r2" and "correct_answer r1 = correct_answer r2"
  shows "mcq_verdict up r1 res = mcq_verdict up r2 res"
  using assms by (simp add: mcq_verdict_def)

text \<open>
  C9. Two runs of the evaluate operation with question type "mcq" and the same question
  text, user answer and correct answer, against any two behaviours of the completion
  service and in any two worlds, end the same way (the same status or the same escaped
  exception) with the same score, feedback and skill gap; and these are what
  \<open>mcq_verdict\<close>, which makes no call, computes from the request alone. The case
  table \<open>up\<close> is that of the runtime, the same in both runs, and may be any.
\<close>

theorem mcq_verdict_deterministic:
  assumes "question_type r1 = Some ''mcq''" and "question_type r2 = Some ''mcq''"
    and "question_text r1 = question_text r2" and "user_answer r1 = user_answer r2"
    and "correct_answer r1 = correct_answer r2"
  shows "verdict_of (evaluate_answer up orc1 r1 w1) = verdict_of (evaluate_answer up orc2 r2 w2)
       \<and> verdict_of (evaluate_answer up orc1 r1 w1) =
           (if \<not> truthy (question_text r1) then Inr (400, None)
            else case mcq_verdict up r1 initial_result of
                   Inl e \<Rightarrow> Inl e
                 | Inr res \<Rightarrow> Inr (200, Some (score res, feedback res, skill_gap res)))"
proof -
  have v: "verdict_of (evaluate_answer up orc r w) =
           (if \<not> truthy (question_text r) then Inr (400, None)
            else case mcq_verdict up r initial_result of
                   Inl e \<Rightarrow> Inl e
                 | Inr res \<Rightarrow> Inr (200, Some (score res, feedback res, skill_gap res)))"
    if "question_type r = Some ''mcq''" for orc r w
  proof (cases "truthy (question_text r)")
    case True
    then show ?thesis
      using that evaluate_answer_mcq [where req = r and up = up and orc = orc and w = w]
      by (simp add: verdict_of_evaluate_mcq)
  next
    case False
    then show ?thesis by (simp add: evaluate_answer_def verdict_of_jsonify)
  qed
  show ?thesis
    using v [OF assms(1), of orc1 w1] v [OF assms(2), of orc2 w2]
      mcq_verdict_cong [OF assms(4,5), where up = up and res = initial_result] assms(3)
    by simp
qed

theorem mcq_verdict_deterministic_witness:
  "verdict_of (evaluate_answer upper_of_ascii (\<lambda>i p. Text ''Paris is the capital.'')
      \<lparr>question_text = Some ''Q1'', user_answer = Some ''b'',
       question_type = Some ''mcq'', correct_answer = Some ''C'', rubric = None\<rparr> w0)
   = verdict_of (evaluate_answer upper_of_ascii (\<lambda>i p. Failed ''quota'')
      \<lparr>question_text = Some ''Q1'', user_answer = Some ''b'',
       question_type = Some ''mcq'', correct_answer = Some ''C'', rubric = Some ''r''\<rparr>
      (asked (PlagiarismPrompt ''a'' ''b'') w0))"
  using mcq_verdict_deterministic [where ?r1.0 =
      "\<lparr>question_text = Some ''Q1'', user_answer = Some ''b'',
        question_type = Some ''mcq'', correct_answer = Some ''C'', rubric = None\<rparr>"
      and ?r2.0 = "\<lparr>question_text = Some ''Q1'', user_answer = Some ''b'',
        question_type = Some ''mcq'', correct_answer = Some ''C'', rubric = Some ''r''\<rparr>"
      and up = upper_of_ascii
      and ?orc1.0 = "\<lambda>i p. Text ''Paris is the capital.''" and ?w1.0 = w0
      and ?orc2.0 = "\<lambda>i p. Failed ''quota''"
      and ?w2.0 = "asked (PlagiarismPrompt ''a'' ''b'') w0"]
  by simp

section \<open>Unanswered subjective questions\<close>

lemma py_strip_empty_iff: "py_strip u = [] \<longleftrightarrow> list_all py_isspace u"
proof -
  have "py_strip u = [] \<longleftrightarrow> (\<forall>x \<in> set (dropWhile py_isspace u). py_isspace x)"
    by (simp add: py_strip_def dropWhile_eq_Nil_conv)
  also have "\<dots> \<longleftrightarrow> dropWhile py_isspace u = []"
  proof
    assume a: "\<forall>x \<in> set (dropWhile py_isspace u). py_isspace x"
    show "dropWhile py_isspace u = []"
    proof (rule ccontr)
      assume n: "dropWhile py_isspace u \<noteq> []"
      then have "\<not> py_isspace (hd (dropWhile py_isspace u))" by (rule hd_dropWhile)
      moreover from n have "hd (dropWhile py_isspace u) \<in> set (dropWhile py_isspace u)"
        by simp
      ultimately show False using a by blast
    qed
  next
    assume e: "dropWhile py_isspace u = []"
    show "\<forall>x \<in> set (dropWhile py_isspace u). py_isspace x"
      unfolding e by simp
  qed
  also have "\<dots> \<longleftrightarrow> list_all py_isspace u"
    by (simp add: dropWhile_eq_Nil_conv list_all_iff)
  finally show ?thesis .
qed

lemma blank_iff:
  "blank a \<longleftrightarrow> (case a of None \<Rightarrow> True | Some u \<Rightarrow> list_all py_isspace u)"
  by (cases a) (auto simp: py_strip_empty_iff)

lemma subjective_unanswered_eq:
  "subjective_unanswered orc req w =
     jsonify 200 (Evaluation \<lparr>score = ''0/10'',
        feedback = ''No answer provided for this subjective question.'',
        skill_gap = ''No Answer Provided'',
        solution_highlights =
          stripped_or ''Could not generate solution highlights due to an AI error.''
            (next_reply orc (solution_prompt req) w),
        raw_gemini_response = None\<rparr>)
       (asked (solution_prompt req) w)"
  by (simp add: subjective_unanswered_def generate_content_def next_reply_def asked_def
        solution_prompt_def initial_result_def Let_def split: reply.splits)

text \<open>
  C6. For every evaluate request (one that carries its question text) with question type
  "subjective" whose user answer is absent or consists of white space only, the response
  has status 200 with score "0/10", feedback "No answer provided for this subjective
  question.", skill gap "No Answer Provided", and solution highlights set to the stripped
  reply of the model to the key-points prompt built from question and rubric, or to
  "Could not generate solution highlights due to an AI error." if that call fails; the
  request does not fail, and exactly that one call is made.
\<close>

theorem subjective_unanswered_result:
  assumes "truthy (question_text req)" and "question_type req = Some ''subjective''"
    and "case user_answer req of None \<Rightarrow> True | Some u \<Rightarrow> list_all py_isspace u"
  shows "evaluate_answer up orc req w =
     jsonify 200 (Evaluation \<lparr>score = ''0/10'',
        feedback = ''No answer provided for this subjective question.'',
        skill_gap = ''No Answer Provided'',
        solution_highlights =
          stripped_or ''Could not generate solution highlights due to an AI error.''
            (next_reply orc (solution_prompt req) w),
        raw_gemini_response = None\<rparr>)
       (asked (solution_prompt req) w)"
  using assms by (simp add: evaluate_answer_def blank_iff subjective_unanswered_eq)

theorem subjective_unanswered_result_witness:
  "evaluate_answer upper_of_ascii (\<lambda>i p. Failed ''quota'')
     \<lparr>question_text = Some ''Q1. Explain recursion.'', user_answer = Some [CHR 0xA0, CHR 0x09],
      question_type = Some ''subjective'', correct_answer = None,
      rubric = Some ''Base case''\<rparr> w0 =
   jsonify 200 (Evaluation \<lparr>score = ''0/10'',
      feedback = ''No answer provided for this subjective question.'',
      skill_gap = ''No Answer Provided'',
      solution_highlights = ''Could not generate solution highlights due to an AI error.'',
      raw_gemini_response = None\<rparr>)
     (asked (SolutionPrompt ''Q1. Explain recursion.'' ''Base case'') w0)"
  using subjective_unanswered_result [where req =
      "\<lparr>question_text = Some ''Q1. Explain recursion.'',
        user_answer = Some [CHR 0xA0, CHR 0x09],
        question_type = Some ''subjective'', correct_answer = None,
        rubric = Some ''Base case''\<rparr>"
      and up = upper_of_ascii and orc = "\<lambda>i p. Failed ''quota''" and w = w0]
  by (simp add: py_isspace_def next_reply_def solution_prompt_def rubric_text_def)

section \<open>Short circuits of check_plagiarism and recommend_tests\<close>

text \<open>
  C7. For every plagiarism request (one that carries its required user answer) with an
  empty or absent corpus, the response is the fixed no-corpus message in the
  \<open>plagiarism_report\<close> field with status 200, and the world is left as it was: no call
  is made to the completion service. For every recommendation request with empty or
  absent skill gaps the response is the fixed message in the \<open>recommendations\<close> field
  with status 200, and again no call is made.
\<close>

theorem short_circuit_without_calls:
  "(truthy (answer preq) \<and> (known_corpus preq = None \<or> known_corpus preq = Some []) \<longrightarrow>
      check_plagiarism orc preq w =
        (Inr \<lparr>status = 200, body = PlagiarismReport
           ''No corpus provided for comparison. Cannot perform a detailed plagiarism check.''\<rparr>,
         w))
   \<and> (skill_gaps rreq = None \<or> skill_gaps rreq = Some [] \<longrightarrow>
        recommend_tests orc rreq w =
          (Inr \<lparr>status = 200, body = Recommendations
             ''No specific skill gaps identified to recommend new tests.''\<rparr>, w))"
  by (auto simp: check_plagiarism_def recommend_tests_def jsonify_def)

theorem short_circuit_without_calls_witness:
  "check_plagiarism (\<lambda>i p. Text ''Plagiarism Score: 0%'')
     \<lparr>answer = Some ''my answer'', known_corpus = Some []\<rparr> w0 =
     (Inr \<lparr>status = 200, body = PlagiarismReport
        ''No corpus provided for comparison. Cannot perform a detailed plagiarism check.''\<rparr>, w0)
   \<and> recommend_tests (\<lambda>i p. Text ''- Practice more'')
       \<lparr>skill_gaps = None, user_profile = None\<rparr> w0 =
     (Inr \<lparr>status = 200, body = Recommendations
        ''No specific skill gaps identified to recommend new tests.''\<rparr>, w0)"
  using short_circuit_without_calls [where preq =
      "\<lparr>answer = Some ''my answer'', known_corpus = Some []\<rparr>"
      and orc = "\<lambda>i p. Text ''Plagiarism Score: 0%''" and w = w0
      and rreq = "\<lparr>skill_gaps = None, user_profile = None\<rparr>"]
    short_circuit_without_calls [where preq =
      "\<lparr>answer = Some ''my answer'', known_corpus = Some []\<rparr>"
      and orc = "\<lambda>i p. Text ''- Practice more''" and w = w0
      and rreq = "\<lparr>skill_gaps = None, user_profile = None\<rparr>"]
  by simp

section \<open>Requests to generate_assessment without topic and syllabus\<close>

lemma generate_without_source:
  assumes "\<not> truthy (topic req)" and "\<not> uploaded (syllabus_pdf req)"
    and "total_questions req \<noteq> Malformed"
  shows "generate_assessment env orc req w =
           jsonify 400 (ErrorBody (if question_types req = Malformed
                                   then ''Invalid question_types parameter.''
                                   else ''Please provide a topic or upload a syllabus PDF.'')) w"
  using assms
  by (cases "total_questions req"; cases "question_types req"; cases "syllabus_pdf req")
    (simp_all add: generate_assessment_def)

lemma generate_without_source_no_call:
  assumes "\<not> truthy (topic req)" and "\<not> uploaded (syllabus_pdf req)"
  shows "snd (generate_assessment env orc req w) = w"
  using assms
  by (cases "total_questions req"; cases "question_types req"; cases "syllabus_pdf req")
    (simp_all add: generate_assessment_def jsonify_def)

text \<open>
  C8 at the failing input: a form without topic and syllabus whose \<open>total_questions\<close>
  is text that \<open>int\<close> rejects (for instance the empty text). \<open>int\<close> raises ValueError
  at line 57, before the check of lines 84 to 87 is reached; nothing catches it, so the
  request ends in a server error and not in the client error of the claim. No call is
  made.
\<close>

theorem generate_malformed_total_raises:
  "generate_assessment env orc
     \<lparr>topic = None, total_questions = Malformed, difficulty = None,
      question_types = Given [''mcq''], syllabus_pdf = None\<rparr> w
   = (Inl ValueError, w)"
  by (simp add: generate_assessment_def)

section \<open>The temporary file of an uploaded syllabus\<close>

lemma files_generate_questions:
  "files (snd (generate_questions orc base diff ctx c w)) = files w"
  by (simp add: generate_questions_def generate_content_def generation_failed_def jsonify_def
        split: reply.splits)

lemma files_count_and_generate:
  "files (snd (count_and_generate orc req n qts base ctx w)) = files w"
  by (simp add: count_and_generate_def jsonify_def files_generate_questions
        split: sum.splits option.splits)

lemma load_syllabus_saved:
  assumes "\<not> save_raises env"
  shows "files (snd (load_syllabus env u w)) (tmp_name env) = None"
  using assms by (simp add: load_syllabus_def Let_def write_file_def unlink_def)

text \<open>
  Whenever writing the upload succeeds, the temporary file is gone when the request ends:
  after a parse failure, after the responses of status 400 and 500, after an escaped
  exception of the counts, and after success.
\<close>

lemma temporary_file_removed:
  assumes "uploaded (syllabus_pdf req)" and "\<not> save_raises env"
    and "total_questions req \<noteq> Malformed" and "question_types req \<noteq> Malformed"
  shows "files (snd (generate_assessment env orc req w)) (tmp_name env) = None"
proof -
  from assms(1) obtain u where u: "syllabus_pdf req = Some u" "filename u \<noteq> []"
    by (cases "syllabus_pdf req") auto
  obtain r w' where l: "load_syllabus env u w = (r, w')"
    by (cases "load_syllabus env u w")
  with load_syllabus_saved [OF assms(2), of u w] have f: "files w' (tmp_name env) = None"
    by simp
  have r: "\<exists>c. r = Inr c"
    using l assms(2) by (auto simp: load_syllabus_def Let_def)
  then obtain c where c: "r = Inr c" ..
  show ?thesis
    using assms(3,4) u l c f
    by (cases "total_questions req"; cases "question_types req")
      (simp_all add: generate_assessment_def jsonify_def files_count_and_generate)
qed

text \<open>
  C5 at the failing input: a request that uploads a syllabus while writing the upload to
  the temporary file raises (a full disk, say). The exception leaves the handler between
  the creation of the file and \<open>os.unlink\<close>, which is not in a \<open>finally\<close> clause: the
  request ends with the exception and the temporary file is still there.
\<close>

theorem temporary_file_left_behind:
  "generate_assessment
     \<lparr>tmp_name = ''/tmp/tmpk3x9.pdf'', save_raises = True, extract_text = Some\<rparr> orc
     \<lparr>topic = None, total_questions = Absent, difficulty = None,
      question_types = Given [''mcq''],
      syllabus_pdf = Some \<lparr>filename = ''syllabus.pdf'', content = ''%PDF-1.4''\<rparr>\<rparr> w0
   = (Inl OSError, w0\<lparr>files := [''/tmp/tmpk3x9.pdf'' \<mapsto> []]\<rparr>)
   \<and> files (w0\<lparr>files := [''/tmp/tmpk3x9.pdf'' \<mapsto> []]\<rparr>) ''/tmp/tmpk3x9.pdf'' \<noteq> None"
  by (simp add: generate_assessment_def load_syllabus_def write_file_def w0_def)

section \<open>Failures of the completion service\<close>

lemma failed_call_same:
  assumes "calls w' = calls w"
  shows "\<not> failed_call orc w w'"
  using assms by (simp add: failed_call_def)

lemma failed_call_jsonify_same [simp]: "\<not> failed_call orc w (snd (jsonify st b w))"
  by (simp add: jsonify_def failed_call_def)

lemma failed_call_asked:
  "failed_call orc w (asked p w) = is_failed (next_reply orc p w)"
  by (simp add: failed_call_def asked_def next_reply_def)

lemma failed_call_asked2:
  "failed_call orc w (asked q (asked p w)) =
     (is_failed (next_reply orc p w) \<or> is_failed (next_reply orc q (asked p w)))"
proof -
  have "[length (calls w) ..< Suc (Suc (length (calls w)))]
        = [length (calls w), Suc (length (calls w))]"
    by (simp add: upt_rec)
  then show ?thesis
    by (simp add: failed_call_def asked_def next_reply_def nth_append)
qed

lemma generate_content_eq:
  "generate_content orc p w = (next_reply orc p w, asked p w)"
  by (simp add: generate_content_def next_reply_def asked_def)

lemma generate_questions_failed:
  assumes "failed_call orc w (snd (generate_questions orc base diff ctx c w))"
  shows "fst (generate_questions orc base diff ctx c w) =
           Inr \<lparr>status = 500,
                body = ErrorBody ''Failed to generate assessment. Please try again.''\<rparr>"
  using assms
  by (auto simp: generate_questions_def generate_content_eq generation_failed_def jsonify_def
        failed_call_asked failed_call_asked2 failed_call_same
        split: reply.splits if_splits)

lemma calls_unlink [simp]: "calls (unlink p w) = calls w"
  by (simp add: unlink_def)

lemma calls_write_file [simp]: "calls (write_file p d w) = calls w"
  by (simp add: write_file_def)

lemma calls_load_syllabus: "calls (snd (load_syllabus env u w)) = calls w"
  by (simp add: load_syllabus_def Let_def)

lemma failed_call_jsonify:
  assumes "calls w' = calls w"
  shows "\<not> failed_call orc w (snd (jsonify st b w'))"
  using assms by (simp add: jsonify_def failed_call_def)

lemma count_and_generate_failed:
  assumes "calls w' = calls w"
    and "failed_call orc w (snd (count_and_generate orc req n qts base ctx w'))"
  shows "fst (count_and_generate orc req n qts base ctx w') =
           Inr \<lparr>status = 500,
                body = ErrorBody ''Failed to generate assessment. Please try again.''\<rparr>"
proof -
  have "failed_call orc w' (snd (count_and_generate orc req n qts base ctx w'))"
    using assms by (simp add: failed_call_def)
  then show ?thesis
    by (auto simp: count_and_generate_def failed_call_same generate_questions_failed
          split: sum.splits option.splits)
qed

lemma generate_assessment_failed:
  assumes "failed_call orc w (snd (generate_assessment env orc req w))"
  shows "fst (generate_assessment env orc req w) =
           Inr \<lparr>status = 500,
                body = ErrorBody ''Failed to generate assessment. Please try again.''\<rparr>"
proof (cases "syllabus_pdf req")
  case None
  with assms show ?thesis
    by (cases "total_questions req"; cases "question_types req")
      (auto simp: generate_assessment_def Let_def failed_call_same count_and_generate_failed
         split: if_splits)
next
  case (Some u)
  obtain r w' where l: "load_syllabus env u w = (r, w')"
    by (cases "load_syllabus env u w")
  with calls_load_syllabus [of env u w] have c: "calls w' = calls w" by simp
  note f = failed_call_same [OF c] failed_call_jsonify [OF c] count_and_generate_failed [OF c]
  from assms Some l show ?thesis
    by (cases "total_questions req"; cases "question_types req"; cases r)
      (auto simp: generate_assessment_def Let_def failed_call_same count_and_generate_failed f
         split: if_splits)
qed


lemma check_plagiarism_failed:
  assumes "failed_call orc w (snd (check_plagiarism orc preq w))"
  shows "fst (check_plagiarism orc preq w) =
           Inr \<lparr>status = 500,
                body = ErrorBody ''Failed to check plagiarism due to AI error.''\<rparr>"
  using assms
  by (auto simp: check_plagiarism_def generate_content_eq jsonify_def failed_call_same
        failed_call_asked split: reply.splits if_splits)

lemma recommend_tests_failed:
  assumes "failed_call orc w (snd (recommend_tests orc rreq w))"
  shows "fst (recommend_tests orc rreq w) =
           Inr \<lparr>status = 500,
                body = ErrorBody ''Failed to generate recommendations due to AI error.''\<rparr>"
  using assms
  by (auto simp: recommend_tests_def generate_content_eq jsonify_def failed_call_same
        failed_call_asked split: reply.splits if_splits)

lemma subjective_answered_eq:
  "subjective_answered orc req w =
     jsonify 200 (Evaluation
        (case next_reply orc (evaluation_prompt req) w of
           Text raw \<Rightarrow> parse_evaluation raw initial_result
         | Failed e \<Rightarrow> initial_result\<lparr>
             feedback := ''Failed to evaluate subjective answer due to an AI error.'',
             raw_gemini_response := Some e\<rparr>))
       (asked (evaluation_prompt req) w)"
  by (simp add: subjective_answered_def generate_content_eq evaluation_prompt_def
        split: reply.splits)

lemma evaluate_mcq_failed:
  assumes "failed_call orc w (snd (evaluate_mcq up orc req w))"
  shows "\<exists>res. fst (evaluate_mcq up orc req w) = Inr \<lparr>status = 200, body = Evaluation res\<rparr>
           \<and> mcq_verdict up req (initial_result\<lparr>solution_highlights :=
                 ''Could not generate solution explanation due to an AI error.''\<rparr>) = Inr res
           \<and> solution_highlights res =
                 ''Could not generate solution explanation due to an AI error.''"
proof (cases "truthy (user_answer req)")
  case False
  with assms show ?thesis
    by (cases "next_reply orc (explanation_prompt req) w")
      (simp_all add: evaluate_mcq_unanswered jsonify_def failed_call_asked mcq_verdict_def
         initial_result_def)
next
  case True
  show ?thesis
  proof (cases "answers_differ up (user_answer req) (correct_answer req)")
    case (Inl e)
    with True assms show ?thesis
      by (simp add: evaluate_mcq_def needs_explanation_def failed_call_same)
  next
    case (Inr b)
    with True assms show ?thesis
      by (cases b; cases "next_reply orc (explanation_prompt req) w")
        (simp_all add: evaluate_mcq_def needs_explanation_def mcq_explanation_eq
           mcq_verdict_def jsonify_def failed_call_same failed_call_asked initial_result_def)
  qed
qed

lemma evaluate_answer_failed:
  assumes "failed_call orc w (snd (evaluate_answer up orc req w))"
  shows "(question_type req = Some ''mcq'' \<longrightarrow>
            (\<exists>res. fst (evaluate_answer up orc req w) = Inr \<lparr>status = 200, body = Evaluation res\<rparr>
               \<and> mcq_verdict up req (initial_result\<lparr>solution_highlights :=
                    ''Could not generate solution explanation due to an AI error.''\<rparr>) = Inr res
               \<and> solution_highlights res =
                    ''Could not generate solution explanation due to an AI error.''))
       \<and> (question_type req = Some ''subjective'' \<and> blank (user_answer req) \<longrightarrow>
            fst (evaluate_answer up orc req w) =
              Inr \<lparr>status = 200, body = Evaluation \<lparr>score = ''0/10'',
                 feedback = ''No answer provided for this subjective question.'',
                 skill_gap = ''No Answer Provided'',
                 solution_highlights =
                   ''Could not generate solution highlights due to an AI error.'',
                 raw_gemini_response = None\<rparr>\<rparr>)
       \<and> (question_type req = Some ''subjective'' \<and> \<not> blank (user_answer req) \<longrightarrow>
            fst (evaluate_answer up orc req w) =
              Inr \<lparr>status = 200, body = Evaluation \<lparr>score = ''N/A'',
                 feedback = ''Failed to evaluate subjective answer due to an AI error.'',
                 skill_gap = ''N/A'', solution_highlights = ''N/A'',
                 raw_gemini_response = error_of (next_reply orc (evaluation_prompt req) w)\<rparr>\<rparr>)"
proof (cases "truthy (question_text req) \<and> truthy (question_type req)")
  case False
  with assms show ?thesis
    by (simp add: evaluate_answer_def failed_call_same jsonify_def)
next
  case True
  show ?thesis
  proof (intro conjI impI)
    assume "question_type req = Some ''mcq''"
    with True assms show "\<exists>res. fst (evaluate_answer up orc req w)
        = Inr \<lparr>status = 200, body = Evaluation res\<rparr>
        \<and> mcq_verdict up req (initial_result\<lparr>solution_highlights :=
             ''Could not generate solution explanation due to an AI error.''\<rparr>) = Inr res
        \<and> solution_highlights res =
             ''Could not generate solution explanation due to an AI error.''"
      using evaluate_mcq_failed [where orc = orc and w = w and req = req and up = up]
      by (simp add: evaluate_answer_def)
  next
    assume "question_type req = Some ''subjective'' \<and> blank (user_answer req)"
    with True assms show "fst (evaluate_answer up orc req w) =
              Inr \<lparr>status = 200, body = Evaluation \<lparr>score = ''0/10'',
                 feedback = ''No answer provided for this subjective question.'',
                 skill_gap = ''No Answer Provided'',
                 solution_highlights =
                   ''Could not generate solution highlights due to an AI error.'',
                 raw_gemini_response = None\<rparr>\<rparr>"
      by (cases "next_reply orc (solution_prompt req) w")
        (simp_all add: evaluate_answer_def subjective_unanswered_eq jsonify_def
           failed_call_asked)
  next
    assume "question_type req = Some ''subjective'' \<and> \<not> blank (user_answer req)"
    with True assms show "fst (evaluate_answer up orc req w) =
              Inr \<lparr>status = 200, body = Evaluation \<lparr>score = ''N/A'',
                 feedback = ''Failed to evaluate subjective answer due to an AI error.'',
                 skill_gap = ''N/A'', solution_highlights = ''N/A'',
                 raw_gemini_response = error_of (next_reply orc (evaluation_prompt req) w)\<rparr>\<rparr>"
      by (cases "next_reply orc (evaluation_prompt req) w")
        (simp_all add: evaluate_answer_def subjective_answered_eq jsonify_def
           failed_call_asked initial_result_def)
  qed
qed

text \<open>
  C4, as amended. Whenever a call to the completion service fails during a request:
  generate_assessment answers with status 500 and the generic message "Failed to generate
  assessment. Please try again."; check_plagiarism and recommend_tests answer with status
  500 and their generic messages; evaluate_answer never fails the request but answers
  with status 200, where a failed MCQ explanation only sets the solution highlights to a
  fixed text and leaves the verdict as it is, a failed key-points call for an unanswered
  subjective question only sets the solution highlights to a fixed text, and a failed
  primary evaluation of a subjective answer sets the feedback to "Failed to evaluate
  subjective answer due to an AI error.", leaves the other three fields at "N/A" and adds
  the text of the error as \<open>raw_gemini_response\<close>.
\<close>

theorem completion_failures:
  "(failed_call orc w (snd (generate_assessment env orc greq w)) \<longrightarrow>
      fst (generate_assessment env orc greq w) =
        Inr \<lparr>status = 500,
             body = ErrorBody ''Failed to generate assessment. Please try again.''\<rparr>)
   \<and> (failed_call orc w (snd (check_plagiarism orc preq w)) \<longrightarrow>
        fst (check_plagiarism orc preq w) =
          Inr \<lparr>status = 500,
               body = ErrorBody ''Failed to check plagiarism due to AI error.''\<rparr>)
   \<and> (failed_call orc w (snd (recommend_tests orc rreq w)) \<longrightarrow>
        fst (recommend_tests orc rreq w) =
          Inr \<lparr>status = 500,
               body = ErrorBody ''Failed to generate recommendations due to AI error.''\<rparr>)
   \<and> (failed_call orc w (snd (evaluate_answer up orc req w)) \<longrightarrow>
        (question_type req = Some ''mcq'' \<longrightarrow>
           (\<exists>res. fst (evaluate_answer up orc req w) = Inr \<lparr>status = 200, body = Evaluation res\<rparr>
              \<and> mcq_verdict up req (initial_result\<lparr>solution_highlights :=
                   ''Could not generate solution explanation due to an AI error.''\<rparr>) = Inr res
              \<and> solution_highlights res =
                   ''Could not generate solution explanation due to an AI error.''))
        \<and> (question_type req = Some ''subjective'' \<and> blank (user_answer req) \<longrightarrow>
             fst (evaluate_answer up orc req w) =
               Inr \<lparr>status = 200, body = Evaluation \<lparr>score = ''0/10'',
                  feedback = ''No answer provided for this subjective question.'',
                  skill_gap = ''No Answer Provided'',
                  solution_highlights =
                    ''Could not generate solution highlights due to an AI error.'',
                  raw_gemini_response = None\<rparr>\<rparr>)
        \<and> (question_type req = Some ''subjective'' \<and> \<not> blank (user_answer req) \<longrightarrow>
             fst (evaluate_answer up orc req w) =
               Inr \<lparr>status = 200, body = Evaluation \<lparr>score = ''N/A'',
                  feedback = ''Failed to evaluate subjective answer due to an AI error.'',
                  skill_gap = ''N/A'', solution_highlights = ''N/A'',
                  raw_gemini_response =
                    error_of (next_reply orc (evaluation_prompt req) w)\<rparr>\<rparr>))"
  using generate_assessment_failed [of orc w env greq] check_plagiarism_failed [of orc w preq]
    recommend_tests_failed [of orc w rreq]
    evaluate_answer_failed [where orc = orc and w = w and req = req and up = up]
  by blast

lemma strip_essay: "py_strip ''It calls itself.'' = ''It calls itself.''"
  by code_simp

theorem completion_failures_witness:
  "fst (generate_assessment \<lparr>tmp_name = ''/tmp/t.pdf'', save_raises = False, extract_text = Some\<rparr>
          (\<lambda>i p. Failed ''quota'')
          \<lparr>topic = Some ''Graphs'', total_questions = Given 5, difficulty = None,
           question_types = Given [''mcq''], syllabus_pdf = None\<rparr> w0)
     = Inr \<lparr>status = 500,
            body = ErrorBody ''Failed to generate assessment. Please try again.''\<rparr>
   \<and> fst (check_plagiarism (\<lambda>i p. Failed ''quota'')
            \<lparr>answer = Some ''my answer'', known_corpus = Some [''another answer'']\<rparr> w0)
     = Inr \<lparr>status = 500, body = ErrorBody ''Failed to check plagiarism due to AI error.''\<rparr>
   \<and> fst (recommend_tests (\<lambda>i p. Failed ''quota'')
            \<lparr>skill_gaps = Some [''Recursion''], user_profile = None\<rparr> w0)
     = Inr \<lparr>status = 500,
            body = ErrorBody ''Failed to generate recommendations due to AI error.''\<rparr>
   \<and> fst (evaluate_answer upper_of_ascii (\<lambda>i p. Failed ''quota'')
            \<lparr>question_text = Some ''Q1. Explain recursion.'',
             user_answer = Some ''It calls itself.'', question_type = Some ''subjective'',
             correct_answer = None, rubric = None\<rparr> w0)
     = Inr \<lparr>status = 200, body = Evaluation \<lparr>score = ''N/A'',
            feedback = ''Failed to evaluate subjective answer due to an AI error.'',
            skill_gap = ''N/A'', solution_highlights = ''N/A'',
            raw_gemini_response = Some ''quota''\<rparr>\<rparr>"
proof -
  let ?orc = "\<lambda>(i::nat) (p::prompt). Failed ''quota''"
  let ?env = "\<lparr>tmp_name = ''/tmp/t.pdf'', save_raises = False, extract_text = Some\<rparr>"
  let ?g = "\<lparr>topic = Some ''Graphs'', total_questions = Given 5, difficulty = None,
             question_types = Given [''mcq''], syllabus_pdf = None\<rparr>"
  let ?p = "\<lparr>answer = Some ''my answer'', known_corpus = Some [''another answer'']\<rparr>"
  let ?r = "\<lparr>skill_gaps = Some [''Recursion''], user_profile = None\<rparr>"
  let ?e = "\<lparr>question_text = Some ''Q1. Explain recursion.'',
             user_answer = Some ''It calls itself.'', question_type = Some ''subjective'',
             correct_answer = None, rubric = None\<rparr>"
  have g: "failed_call ?orc w0 (snd (generate_assessment ?env ?orc ?g w0))"
    by (simp add: generate_assessment_def count_and_generate_def question_counts_def
          generate_questions_def generate_content_eq generation_failed_def jsonify_def
          failed_call_asked next_reply_def)
  have p: "failed_call ?orc w0 (snd (check_plagiarism ?orc ?p w0))"
    by (simp add: check_plagiarism_def generate_content_eq jsonify_def failed_call_asked
          next_reply_def)
  have r: "failed_call ?orc w0 (snd (recommend_tests ?orc ?r w0))"
    by (simp add: recommend_tests_def generate_content_eq jsonify_def failed_call_asked
          next_reply_def)
  have e: "failed_call ?orc w0 (snd (evaluate_answer upper_of_ascii ?orc ?e w0))"
    by (simp add: evaluate_answer_def strip_essay subjective_answered_eq jsonify_def
          failed_call_asked next_reply_def)
  show ?thesis
    using completion_failures [where orc = ?orc and w = w0 and env = ?env and greq = ?g
        and preq = ?p and rreq = ?r and req = ?e and up = upper_of_ascii] g p r e
    by (simp add: strip_essay next_reply_def)
qed

text \<open>
  C4 as stated fails for the primary evaluation of a subjective answer: when that call
  fails, the request does not fail with a 5xx error; the response has status 200.
\<close>

theorem subjective_failure_counterexample:
  "failed_call (\<lambda>i p. Failed ''quota'') w0
     (snd (evaluate_answer upper_of_ascii (\<lambda>i p. Failed ''quota'')
        \<lparr>question_text = Some ''Q1. Explain recursion.'',
         user_answer = Some ''It calls itself.'', question_type = Some ''subjective'',
         correct_answer = None, rubric = None\<rparr> w0))
   \<and> fst (evaluate_answer upper_of_ascii (\<lambda>i p. Failed ''quota'')
        \<lparr>question_text = Some ''Q1. Explain recursion.'',
         user_answer = Some ''It calls itself.'', question_type = Some ''subjective'',
         correct_answer = None, rubric = None\<rparr> w0)
     = Inr \<lparr>status = 200, body = Evaluation \<lparr>score = ''N/A'',
            feedback = ''Failed to evaluate subjective answer due to an AI error.'',
            skill_gap = ''N/A'', solution_highlights = ''N/A'',
            raw_gemini_response = Some ''quota''\<rparr>\<rparr>
   \<and> \<not> (500::nat) \<le> 200"
  by (simp add: evaluate_answer_def strip_essay subjective_answered_eq jsonify_def
        failed_call_asked next_reply_def initial_result_def)

section \<open>The parser of the evaluation reply\<close>

lemma first_some_map: "first_some f (map g xs) = first_some (f \<circ> g) xs"
  by (induction xs) (simp_all split: option.splits)

lemma first_some_map_option:
  "first_some (\<lambda>x. map_option h (f x)) xs = map_option h (first_some f xs)"
  by (induction xs) (simp_all split: option.splits)

lemma upt_Suc_shift: "[0 ..< Suc (Suc n)] = 0 # map Suc [0 ..< Suc n]"
proof -
  have "[0 ..< Suc (Suc n)] = 0 # [Suc 0 ..< Suc (Suc n)]"
    by (rule upt_conv_Cons) simp
  then show ?thesis by (simp only: map_Suc_upt)
qed

lemma re_search_Nil: "re_search rx [] = rx_match rx [] []"
  by (simp add: re_search_def split: option.splits)

lemma re_search_Cons:
  "re_search rx (c # cs) =
     (case rx_match rx (c # cs) [] of Some g \<Rightarrow> Some g | None \<Rightarrow> re_search rx cs)"
  by (simp add: re_search_def upt_Suc_shift first_some_map comp_def del: upt_Suc
        split: option.splits)

text \<open>A pattern that starts with a literal is found only where the literal occurs.\<close>

lemma after_label_None_iff: "after_label l s = None \<longleftrightarrow> \<not> sublist l s"
  by (induction s) (auto simp: sublist_Cons_right)

lemma re_search_without_label:
  assumes "\<not> sublist l s"
  shows "re_search (Lit l # r) s = None"
  using assms
proof (induction s)
  case Nil
  then show ?case by (simp add: re_search_Nil)
next
  case (Cons c cs)
  then show ?case by (auto simp: re_search_Cons sublist_Cons_right)
qed

lemma star_lengths_greedy:
  "star_lengths True c s =
     length (takeWhile (in_cls c) s) # rev [0 ..< length (takeWhile (in_cls c) s)]"
  by (simp add: star_lengths_def)

lemma drop_run: "drop (length (takeWhile P s)) s = dropWhile P s"
  by (rule dropWhile_eq_drop [symmetric])

lemma take_run: "take (length (takeWhile P s)) s = takeWhile P s"
  by (rule takeWhile_eq_take [symmetric])

text \<open>A greedy star takes its longest run when the rest of the pattern matches after it.\<close>

lemma rx_match_greedy_longest:
  assumes "rx_match r (dropWhile (in_cls c) s)
             (if capture then takeWhile (in_cls c) s else cap) = Some g"
  shows "rx_match (Star True capture c # r) s cap = Some g"
  using assms by (cases capture) (simp_all add: star_lengths_greedy drop_run take_run)

lemma rx_match_greedy_all: "rx_match [Star True True DotAll] s cap = Some s"
  by (rule rx_match_greedy_longest) simp

text \<open>
  A lazy \<open>(.*?)\<close> under \<open>re.DOTALL\<close> before a lookahead that admits the end of the
  text captures the text up to the first place where the lookahead holds.
\<close>

lemma lazy_step:
  "first_some (\<lambda>k. if P (drop k (c # cs)) then Some (take k (c # cs)) else None)
     [0 ..< Suc (length (c # cs))]
   = (if P (c # cs) then Some []
      else map_option ((#) c)
             (first_some (\<lambda>k. if P (drop k cs) then Some (take k cs) else None)
                [0 ..< Suc (length cs)]))"
proof -
  have e: "(\<lambda>k. if P (drop k (c # cs)) then Some (take k (c # cs)) else None) \<circ> Suc
           = (\<lambda>k. map_option ((#) c) (if P (drop k cs) then Some (take k cs) else None))"
    by (rule ext) simp
  show ?thesis
    by (simp add: upt_Suc_shift first_some_map e first_some_map_option del: upt_Suc)
qed

lemma lazy_up_to:
  assumes "AEnd \<in> set alts"
  shows "first_some (\<lambda>k. if list_ex (\<lambda>a. alt_holds a (drop k s)) alts then Some (take k s)
                           else None) [0 ..< Suc (length s)]
         = Some (up_to alts s)"
proof (induction s)
  case Nil
  from assms have "list_ex (\<lambda>a. alt_holds a []) alts"
    by (auto simp: list_ex_iff intro!: bexI [of _ AEnd])
  then show ?case by simp
next
  case (Cons c cs)
  show ?case
    unfolding lazy_step [of "\<lambda>t. list_ex (\<lambda>a. alt_holds a t) alts" c cs] Cons.IH
    by simp
qed

lemma takeWhile_all [simp]: "takeWhile (in_cls DotAll) s = s"
  by (induction s) simp_all

lemma rx_match_lazy_ahead:
  assumes "AEnd \<in> set alts"
  shows "rx_match [Star False True DotAll, Ahead alts] s cap = Some (up_to alts s)"
  using lazy_up_to [OF assms, of s] by (simp add: star_lengths_def del: upt_Suc cong: if_cong)


text \<open>A lazy \<open>(.*?)\<close> before a newline captures the text up to the first newline.\<close>

lemma rx_match_line_Cons:
  "rx_match [Star False True Dot, Lit [CHR 0x0A]] (c # cs) cap =
     (if c = CHR 0x0A then Some []
      else map_option ((#) c) (rx_match [Star False True Dot, Lit [CHR 0x0A]] cs cap))"
proof (cases "c = CHR 0x0A")
  case True
  then show ?thesis by (simp add: star_lengths_def)
next
  case False
  have e: "(\<lambda>k. if prefix [CHR 0x0A] (drop k (c # cs))
                 then Some (take k (c # cs)) else None) \<circ> Suc
           = (\<lambda>k. map_option ((#) c)
                     (if prefix [CHR 0x0A] (drop k cs) then Some (take k cs) else None))"
    by (rule ext) simp
  from False show ?thesis
    by (simp add: star_lengths_def upt_Suc_shift first_some_map e first_some_map_option
          del: upt_Suc cong: if_cong)
qed

lemma rx_match_line:
  "rx_match [Star False True Dot, Lit [CHR 0x0A]] s cap =
     (if CHR 0x0A \<in> set s then Some (takeWhile (\<lambda>c. c \<noteq> CHR 0x0A) s) else None)"
proof (induction s)
  case Nil
  show ?case by (simp add: star_lengths_def)
next
  case (Cons c cs)
  show ?case unfolding rx_match_line_Cons Cons.IH by auto
qed

text \<open>
  When no newline follows the white space after the label, \<open>\s*\<close> gives back what it
  took until the lazy group finds a newline inside the white space; the group is then
  empty.
\<close>

lemma in_cls_Space: "in_cls Space = py_isspace"
  by (rule ext) simp

lemma backtrack_into_space:
  assumes "CHR 0x0A \<notin> set rest"
  shows "first_some (\<lambda>k. rx_match [Star False True Dot, Lit [CHR 0x0A]] (drop k (ws @ rest)) cap)
           (rev [0 ..< Suc (length ws)])
         = (if CHR 0x0A \<in> set ws then Some [] else None)"
  using assms
proof (induction ws arbitrary: rest rule: rev_induct)
  case Nil
  then show ?case by (simp add: rx_match_line del: rx_match.simps)
next
  case (snoc x ws)
  have here: "rx_match [Star False True Dot, Lit [CHR 0x0A]]
                (drop (Suc (length ws)) ((ws @ [x]) @ rest)) cap = None"
    using snoc.prems by (simp add: rx_match_line del: rx_match.simps)
  show ?case
  proof (cases "x = CHR 0x0A")
    case True
    then show ?thesis
      using snoc.prems by (simp add: rx_match_line del: rx_match.simps)
  next
    case False
    with snoc.prems have "CHR 0x0A \<notin> set (x # rest)" by simp
    from snoc.IH [OF this] False here show ?thesis by (simp del: rx_match.simps)
  qed
qed

lemma rx_match_score_rest:
  "rx_match [Star True False Space, Star False True Dot, Lit [CHR 0x0A]] s cap
     = rest_of_line s"
proof (cases "CHR 0x0A \<in> set (dropWhile py_isspace s)")
  case True
  then have "rx_match [Star False True Dot, Lit [CHR 0x0A]] (dropWhile (in_cls Space) s)
               (if False then takeWhile (in_cls Space) s else cap)
             = Some (takeWhile (\<lambda>c. c \<noteq> CHR 0x0A) (dropWhile py_isspace s))"
    by (simp add: rx_match_line in_cls_Space del: rx_match.simps)
  from rx_match_greedy_longest [OF this] True show ?thesis
    by (simp add: rest_of_line_def del: rx_match.simps)
next
  case False
  have "rx_match [Star True False Space, Star False True Dot, Lit [CHR 0x0A]] s cap
        = first_some (\<lambda>k. rx_match [Star False True Dot, Lit [CHR 0x0A]]
                             (drop k (takeWhile py_isspace s @ dropWhile py_isspace s)) cap)
            (rev [0 ..< Suc (length (takeWhile py_isspace s))])"
    by (simp add: rx_match.simps(4) [of True False Space] star_lengths_def in_cls_Space
          del: rx_match.simps upt_Suc)
  also have "\<dots> = (if CHR 0x0A \<in> set (takeWhile py_isspace s) then Some [] else None)"
    by (rule backtrack_into_space [OF False])
  also have "\<dots> = rest_of_line s"
  proof -
    have "set s = set (takeWhile py_isspace s) \<union> set (dropWhile py_isspace s)"
      by (metis set_append takeWhile_dropWhile_id)
    with False show ?thesis by (auto simp: rest_of_line_def)
  qed
  finally show ?thesis .
qed


lemma re_search_label:
  assumes "l \<noteq> []" and "\<And>t. rx_match r t [] = capture t" and "\<And>t. capture t \<noteq> None"
  shows "re_search (Lit l # r) s = Option.bind (after_label l s) capture"
proof (induction s)
  case Nil
  from assms(1) show ?case by (simp add: re_search_Nil)
next
  case (Cons c cs)
  show ?case
  proof (cases "prefix l (c # cs)")
    case True
    with assms(3) [of "drop (length l) (c # cs)"] show ?thesis
      by (auto simp: re_search_Cons assms(2))
  next
    case False
    with Cons show ?thesis by (simp add: re_search_Cons)
  qed
qed

lemma rest_of_line_None:
  assumes "CHR 0x0A \<notin> set s"
  shows "rest_of_line s = None"
proof -
  have "set (dropWhile py_isspace s) \<subseteq> set s" by (rule set_dropWhileD [THEN subsetI])
  with assms show ?thesis by (auto simp: rest_of_line_def Let_def)
qed

lemma rest_of_line_None_iff: "rest_of_line s = None \<longleftrightarrow> CHR 0x0A \<notin> set s"
proof
  assume "rest_of_line s = None"
  then show "CHR 0x0A \<notin> set s"
    by (auto simp: rest_of_line_def Let_def split: if_splits)
qed (rule rest_of_line_None)

lemma re_search_line_no_newline:
  assumes "CHR 0x0A \<notin> set s" and "\<And>t. rx_match r t [] = rest_of_line t"
  shows "re_search (Lit l # r) s = None"
  using assms(1)
proof (induction s)
  case Nil
  show ?case by (simp add: re_search_Nil assms(2) rest_of_line_None)
next
  case (Cons c cs)
  have "set (drop (length l) (c # cs)) \<subseteq> set (c # cs)" by (rule set_drop_subset)
  with Cons.prems have "rest_of_line (drop (length l) (c # cs)) = None"
    by (intro rest_of_line_None) blast
  with Cons show ?case by (simp add: re_search_Cons assms(2))
qed

text \<open>
  A label followed by \<open>\s*(.*?)\n\<close>: when no newline follows the first occurrence of
  the label, none follows a later one either.
\<close>

lemma re_search_line_label:
  assumes "l \<noteq> []" and "CHR 0x0A \<notin> set l" and "\<And>t. rx_match r t [] = rest_of_line t"
  shows "re_search (Lit l # r) s = Option.bind (after_label l s) rest_of_line"
proof (induction s)
  case Nil
  from assms(1) show ?case by (simp add: re_search_Nil)
next
  case (Cons c cs)
  show ?case
  proof (cases "prefix l (c # cs)")
    case False
    with Cons show ?thesis by (simp add: re_search_Cons)
  next
    case True
    show ?thesis
    proof (cases "rest_of_line (drop (length l) (c # cs))")
      case (Some g)
      with True show ?thesis by (simp add: re_search_Cons assms(3))
    next
      case None
      then have n: "CHR 0x0A \<notin> set (drop (length l) (c # cs))"
        by (simp add: rest_of_line_None_iff)
      from True obtain t where t: "c # cs = l @ t" by (auto simp: prefix_def)
      with n assms(2) have "CHR 0x0A \<notin> set (c # cs)" by simp
      then have "CHR 0x0A \<notin> set cs" by simp
      then have "re_search (Lit l # r) cs = None"
        by (rule re_search_line_no_newline) (rule assms(3))
      with True None show ?thesis by (simp add: re_search_Cons assms(3))
    qed
  qed
qed

lemma rx_match_up_to_label:
  "rx_match [Star True False Space, Star False True DotAll,
             Ahead [ALit (CHR 0x0A # next_label), AEnd]] t []
   = up_to_label next_label t"
proof -
  have "rx_match [Star False True DotAll, Ahead [ALit (CHR 0x0A # next_label), AEnd]]
          (dropWhile (in_cls Space) t) (if False then takeWhile (in_cls Space) t else [])
        = Some (up_to [ALit (CHR 0x0A # next_label), AEnd] (dropWhile py_isspace t))"
    by (simp add: rx_match_lazy_ahead in_cls_Space del: rx_match.simps)
  from rx_match_greedy_longest [OF this] show ?thesis
    by (simp add: up_to_label_def)
qed

lemma rx_match_to_end:
  "rx_match [Star True False Space, Star True True DotAll] t [] = Some (dropWhile py_isspace t)"
proof -
  have "rx_match [Star True True DotAll]
          (dropWhile (in_cls Space) t) (if False then takeWhile (in_cls Space) t else [])
        = Some (dropWhile py_isspace t)"
    by (simp add: rx_match_greedy_all in_cls_Space del: rx_match.simps)
  from rx_match_greedy_longest [OF this] show ?thesis .
qed

lemma parse_field_score:
  "parse_field score_rx fallback raw = field_after ''Score:'' rest_of_line fallback raw"
proof -
  have "re_search score_rx raw = Option.bind (after_label ''Score:'' raw) rest_of_line"
    unfolding score_rx_def
    by (rule re_search_line_label) (simp_all add: rx_match_score_rest del: rx_match.simps)
  then show ?thesis by (simp add: parse_field_def field_after_def)
qed

lemma parse_field_feedback:
  "parse_field feedback_rx fallback raw =
     field_after ''Feedback:'' (up_to_label ''Skill Gap:'') fallback raw"
proof -
  have "re_search feedback_rx raw
        = Option.bind (after_label ''Feedback:'' raw) (up_to_label ''Skill Gap:'')"
    unfolding feedback_rx_def
    by (rule re_search_label)
      (simp_all add: rx_match_up_to_label del: rx_match.simps, simp add: up_to_label_def)
  then show ?thesis by (simp add: parse_field_def field_after_def)
qed

lemma parse_field_skill_gap:
  "parse_field skill_gap_rx fallback raw =
     field_after ''Skill Gap:'' (up_to_label ''Correct Approach/Solution Highlights:'')
       fallback raw"
proof -
  have "re_search skill_gap_rx raw
        = Option.bind (after_label ''Skill Gap:'' raw)
            (up_to_label ''Correct Approach/Solution Highlights:'')"
    unfolding skill_gap_rx_def
    by (rule re_search_label)
      (simp_all add: rx_match_up_to_label del: rx_match.simps, simp add: up_to_label_def)
  then show ?thesis by (simp add: parse_field_def field_after_def)
qed

lemma parse_field_solution_highlights:
  "parse_field solution_highlights_rx fallback raw =
     field_after ''Correct Approach/Solution Highlights:''
       (\<lambda>rest. Some (dropWhile py_isspace rest)) fallback raw"
proof -
  have "re_search solution_highlights_rx raw
        = Option.bind (after_label ''Correct Approach/Solution Highlights:'' raw)
            (\<lambda>rest. Some (dropWhile py_isspace rest))"
    unfolding solution_highlights_rx_def
    by (rule re_search_label) (simp_all add: rx_match_to_end del: rx_match.simps)
  then show ?thesis by (simp add: parse_field_def field_after_def)
qed

lemma parse_evaluation_eq: "parse_evaluation raw initial_result = extract_fields raw"
  by (simp add: parse_evaluation_def extract_fields_def initial_result_def
        parse_field_score parse_field_feedback parse_field_skill_gap
        parse_field_solution_highlights)

lemma field_after_absent:
  assumes "\<not> sublist label raw"
  shows "field_after label capture fallback raw = fallback"
  using assms by (simp add: field_after_def after_label_None_iff [symmetric])

text \<open>
  Replies in the requested format: each label is found at its own place, and each capture
  ends where the next label starts.
\<close>

lemma after_label_here: "after_label l (l @ t) = Some t"
  by (cases l; cases t) simp_all

lemma prefix_before_newline:
  assumes "prefix l (xs @ CHR 0x0A # r)" and "CHR 0x0A \<notin> set l"
  shows "prefix l xs"
  using assms by (auto simp: prefix_append prefix_Cons)

lemma after_label_line:
  assumes "l \<noteq> []" and "CHR 0x0A \<notin> set l" and "\<not> sublist l p"
  shows "after_label l (p @ CHR 0x0A # l @ t) = Some t"
  using assms(3)
proof (induction p)
  case Nil
  from assms(1,2) have "\<not> prefix l (CHR 0x0A # l @ t)" by (cases l) auto
  then show ?case by (simp add: after_label_here)
next
  case (Cons c cs)
  have "\<not> prefix l ((c # cs) @ CHR 0x0A # l @ t)"
  proof
    assume "prefix l ((c # cs) @ CHR 0x0A # l @ t)"
    then have "prefix l (c # cs)" using assms(2) by (rule prefix_before_newline)
    with Cons.prems show False by (auto simp: sublist_Cons_right)
  qed
  moreover from Cons.prems have "\<not> sublist l cs" by (simp add: sublist_Cons_right)
  ultimately show ?case using Cons.IH by simp
qed

lemma sublist_across_newline:
  assumes "CHR 0x0A \<notin> set l"
  shows "sublist l (x @ CHR 0x0A # y) \<longleftrightarrow> sublist l x \<or> sublist l y"
proof (induction x)
  case Nil
  from assms have "\<not> prefix l (CHR 0x0A # y) \<or> l = []" by (cases l) auto
  then show ?case by (auto simp: sublist_Cons_right)
next
  case (Cons c cs)
  have "prefix l ((c # cs) @ CHR 0x0A # y) \<longleftrightarrow> prefix l (c # cs)"
  proof
    assume "prefix l ((c # cs) @ CHR 0x0A # y)"
    then show "prefix l (c # cs)" using assms by (rule prefix_before_newline)
  next
    assume "prefix l (c # cs)"
    then show "prefix l ((c # cs) @ CHR 0x0A # y)" by (rule prefix_prefix)
  qed
  then have "prefix l (c # cs @ CHR 0x0A # y) \<longleftrightarrow> prefix l (c # cs)" by simp
  with Cons show ?case by (simp only: append_Cons sublist_Cons_right) blast
qed

lemma ex_dropWhile: "(\<exists>x \<in> set (dropWhile P s). \<not> P x) \<longleftrightarrow> (\<exists>x \<in> set s. \<not> P x)"
  by (induction s) auto

lemma has_text: "py_strip s \<noteq> [] \<longleftrightarrow> (\<exists>c \<in> set s. \<not> py_isspace c)"
  by (simp add: py_strip_def dropWhile_eq_Nil_conv ex_dropWhile)

lemma dropWhile_has_text:
  assumes "py_strip s \<noteq> []"
  shows "dropWhile py_isspace (s @ t) = dropWhile py_isspace s @ t"
  using assms by (auto simp: has_text intro: dropWhile_append1)

lemma py_strip_dropWhile: "py_strip (dropWhile py_isspace s) = py_strip s"
  by (simp add: py_strip_def)

lemma rest_of_line_here:
  assumes "py_strip a \<noteq> []" and "CHR 0x0A \<notin> set a"
  shows "rest_of_line (a @ CHR 0x0A # t) = Some (dropWhile py_isspace a)"
proof -
  have "CHR 0x0A \<notin> set (dropWhile py_isspace a)"
    using assms(2) set_dropWhileD by fastforce
  then have "\<forall>x \<in> set (dropWhile py_isspace a). x \<noteq> CHR 0x0A" by blast
  then have "takeWhile (\<lambda>c. c \<noteq> CHR 0x0A) (dropWhile py_isspace a @ CHR 0x0A # t)
             = dropWhile py_isspace a"
    by (simp add: takeWhile_append2)
  then show ?thesis
    by (simp add: rest_of_line_def dropWhile_has_text [OF assms(1)])
qed

lemma up_to_next_label:
  assumes "CHR 0x0A \<notin> set l" and "\<not> sublist l b"
  shows "up_to [ALit (CHR 0x0A # l), AEnd] (b @ CHR 0x0A # l @ t) = b"
  using assms(2)
proof (induction b)
  case Nil
  show ?case by simp
next
  case (Cons x xs)
  have "\<not> prefix (CHR 0x0A # l) ((x # xs) @ CHR 0x0A # l @ t)"
  proof
    assume "prefix (CHR 0x0A # l) ((x # xs) @ CHR 0x0A # l @ t)"
    then have "prefix l (xs @ CHR 0x0A # l @ t)" by auto
    then have "prefix l xs" using assms(1) by (rule prefix_before_newline)
    with Cons.prems show False by (auto simp: sublist_Cons_right prefix_imp_sublist)
  qed
  moreover from Cons.prems have "\<not> sublist l xs" by (simp add: sublist_Cons_right)
  ultimately show ?case using Cons.IH by simp
qed

lemma up_to_label_here:
  assumes "CHR 0x0A \<notin> set l" and "\<not> sublist l b" and "py_strip b \<noteq> []"
  shows "up_to_label l (b @ CHR 0x0A # l @ t) = Some (dropWhile py_isspace b)"
proof -
  have "suffix (dropWhile py_isspace b) b" by (rule suffix_dropWhile)
  then have "sublist (dropWhile py_isspace b) b" by (rule suffix_imp_sublist)
  with assms(2) have "\<not> sublist l (dropWhile py_isspace b)"
    using sublist_order.order_trans by blast
  from up_to_next_label [OF assms(1) this] show ?thesis
    by (simp add: up_to_label_def dropWhile_has_text [OF assms(3)])
qed


lemma field_line_here:
  assumes "py_strip a \<noteq> []" and "CHR 0x0A \<notin> set a"
  shows "field_after l rest_of_line fb (l @ a @ CHR 0x0A # t) = py_strip a"
  using assms
  by (simp add: field_after_def after_label_here rest_of_line_here py_strip_dropWhile)

lemma field_up_to_here:
  assumes "l \<noteq> []" and "CHR 0x0A \<notin> set l" and "\<not> sublist l p"
    and "CHR 0x0A \<notin> set l'" and "\<not> sublist l' b" and "py_strip b \<noteq> []"
  shows "field_after l (up_to_label l') fb (p @ CHR 0x0A # l @ b @ CHR 0x0A # l' @ t)
         = py_strip b"
  using assms
  by (simp add: field_after_def after_label_line up_to_label_here py_strip_dropWhile)

lemma field_to_end_here:
  assumes "l \<noteq> []" and "CHR 0x0A \<notin> set l" and "\<not> sublist l p"
  shows "field_after l (\<lambda>rest. Some (dropWhile py_isspace rest)) fb (p @ CHR 0x0A # l @ d)
         = py_strip d"
  using assms by (simp add: field_after_def after_label_line py_strip_dropWhile)

lemma fields_of_four_lines:
  assumes l2: "l2 \<noteq> []" "CHR 0x0A \<notin> set l2" "\<not> sublist l2 (l1 @ a)"
    and l3: "l3 \<noteq> []" "CHR 0x0A \<notin> set l3" "\<not> sublist l3 (l1 @ a)" "\<not> sublist l3 (l2 @ b)"
      "\<not> sublist l3 b"
    and l4: "l4 \<noteq> []" "CHR 0x0A \<notin> set l4" "\<not> sublist l4 (l1 @ a)" "\<not> sublist l4 (l2 @ b)"
      "\<not> sublist l4 (l3 @ c)" "\<not> sublist l4 c"
    and a: "py_strip a \<noteq> []" "CHR 0x0A \<notin> set a"
    and b: "py_strip b \<noteq> []" and c: "py_strip c \<noteq> []"
  shows "field_after l1 rest_of_line f1
           (l1 @ a @ CHR 0x0A # l2 @ b @ CHR 0x0A # l3 @ c @ CHR 0x0A # l4 @ d) = py_strip a"
    and "field_after l2 (up_to_label l3) f2
           (l1 @ a @ CHR 0x0A # l2 @ b @ CHR 0x0A # l3 @ c @ CHR 0x0A # l4 @ d) = py_strip b"
    and "field_after l3 (up_to_label l4) f3
           (l1 @ a @ CHR 0x0A # l2 @ b @ CHR 0x0A # l3 @ c @ CHR 0x0A # l4 @ d) = py_strip c"
    and "field_after l4 (\<lambda>rest. Some (dropWhile py_isspace rest)) f4
           (l1 @ a @ CHR 0x0A # l2 @ b @ CHR 0x0A # l3 @ c @ CHR 0x0A # l4 @ d) = py_strip d"
proof -
  show "field_after l1 rest_of_line f1
           (l1 @ a @ CHR 0x0A # l2 @ b @ CHR 0x0A # l3 @ c @ CHR 0x0A # l4 @ d) = py_strip a"
    using a by (rule field_line_here)
  have "field_after l2 (up_to_label l3) f2
          ((l1 @ a) @ CHR 0x0A # l2 @ b @ CHR 0x0A # l3 @ (c @ CHR 0x0A # l4 @ d)) = py_strip b"
    using l2 l3(2,5) b by (rule field_up_to_here)
  then show "field_after l2 (up_to_label l3) f2
           (l1 @ a @ CHR 0x0A # l2 @ b @ CHR 0x0A # l3 @ c @ CHR 0x0A # l4 @ d) = py_strip b"
    by simp
  have "\<not> sublist l3 ((l1 @ a) @ CHR 0x0A # (l2 @ b))"
    using l3(3,4) by (simp only: sublist_across_newline [OF l3(2)] simp_thms)
  with l3(1,2)
  have "field_after l3 (up_to_label l4) f3
          (((l1 @ a) @ CHR 0x0A # (l2 @ b)) @ CHR 0x0A # l3 @ c @ CHR 0x0A # l4 @ d) = py_strip c"
    using l4(2,6) c by (rule field_up_to_here)
  then show "field_after l3 (up_to_label l4) f3
           (l1 @ a @ CHR 0x0A # l2 @ b @ CHR 0x0A # l3 @ c @ CHR 0x0A # l4 @ d) = py_strip c"
    by simp
  have "\<not> sublist l4 ((l2 @ b) @ CHR 0x0A # (l3 @ c))"
    using l4(4,5) by (simp only: sublist_across_newline [OF l4(2)] simp_thms)
  with l4(3) have "\<not> sublist l4 ((l1 @ a) @ CHR 0x0A # ((l2 @ b) @ CHR 0x0A # (l3 @ c)))"
    by (simp only: sublist_across_newline [OF l4(2)] simp_thms)
  with l4(1,2)
  have "field_after l4 (\<lambda>rest. Some (dropWhile py_isspace rest)) f4
          (((l1 @ a) @ CHR 0x0A # ((l2 @ b) @ CHR 0x0A # (l3 @ c))) @ CHR 0x0A # l4 @ d)
        = py_strip d"
    by (rule field_to_end_here)
  then show "field_after l4 (\<lambda>rest. Some (dropWhile py_isspace rest)) f4
           (l1 @ a @ CHR 0x0A # l2 @ b @ CHR 0x0A # l3 @ c @ CHR 0x0A # l4 @ d) = py_strip d"
    by simp
qed

lemma label_free_iff:
  "label_free s \<longleftrightarrow>
     \<not> sublist ''Score:'' s \<and> \<not> sublist ''Feedback:'' s \<and> \<not> sublist ''Skill Gap:'' s
     \<and> \<not> sublist ''Correct Approach/Solution Highlights:'' s"
  by (simp add: label_free_def known_labels_def)

lemma after_score_label:
  "sublist ''Feedback:'' (''Score:'' @ s) \<longleftrightarrow> sublist ''Feedback:'' s"
  "sublist ''Skill Gap:'' (''Score:'' @ s) \<longleftrightarrow> sublist ''Skill Gap:'' s"
  "sublist ''Correct Approach/Solution Highlights:'' (''Score:'' @ s)
     \<longleftrightarrow> sublist ''Correct Approach/Solution Highlights:'' s"
  by (simp_all add: sublist_Cons_right)

lemma after_feedback_label:
  "sublist ''Skill Gap:'' (''Feedback:'' @ s) \<longleftrightarrow> sublist ''Skill Gap:'' s"
  "sublist ''Correct Approach/Solution Highlights:'' (''Feedback:'' @ s)
     \<longleftrightarrow> sublist ''Correct Approach/Solution Highlights:'' s"
  by (simp_all add: sublist_Cons_right)

lemma after_skill_gap_label:
  "sublist ''Correct Approach/Solution Highlights:'' (''Skill Gap:'' @ s)
     \<longleftrightarrow> sublist ''Correct Approach/Solution Highlights:'' s"
  by (simp add: sublist_Cons_right)

lemma extract_fields_in_format:
  assumes "label_free a" and "label_free b" and "label_free c"
    and "CHR 0x0A \<notin> set a" and "py_strip a \<noteq> []" and "py_strip b \<noteq> []"
    and "py_strip c \<noteq> []"
  shows "extract_fields (reply_in_format a b c d) =
           \<lparr>score = py_strip a, feedback = py_strip b, skill_gap = py_strip c,
            solution_highlights = py_strip d, raw_gemini_response = None\<rparr>"
proof -
  note f = fields_of_four_lines [where ?l1.0 = "''Score:''" and ?l2.0 = "''Feedback:''"
      and ?l3.0 = "''Skill Gap:''" and ?l4.0 = "''Correct Approach/Solution Highlights:''"
      and a = a and b = b and c = c and d = d]
  have l: "\<not> sublist ''Feedback:'' (''Score:'' @ a)"
    "\<not> sublist ''Skill Gap:'' (''Score:'' @ a)"
    "\<not> sublist ''Skill Gap:'' (''Feedback:'' @ b)"
    "\<not> sublist ''Skill Gap:'' b"
    "\<not> sublist ''Correct Approach/Solution Highlights:'' (''Score:'' @ a)"
    "\<not> sublist ''Correct Approach/Solution Highlights:'' (''Feedback:'' @ b)"
    "\<not> sublist ''Correct Approach/Solution Highlights:'' (''Skill Gap:'' @ c)"
    "\<not> sublist ''Correct Approach/Solution Highlights:'' c"
    using assms(1-3)
    by (simp_all only: after_score_label after_feedback_label after_skill_gap_label
          label_free_iff simp_thms)
  have n: "''Feedback:'' \<noteq> []" "CHR 0x0A \<notin> set ''Feedback:''"
    "''Skill Gap:'' \<noteq> []" "CHR 0x0A \<notin> set ''Skill Gap:''"
    "''Correct Approach/Solution Highlights:'' \<noteq> []"
    "CHR 0x0A \<notin> set ''Correct Approach/Solution Highlights:''"
    by simp_all
  note g = f [OF n(1,2) l(1) n(3,4) l(2,3,4) n(5,6) l(5,6,7,8) assms(5,4,6,7)]
  show ?thesis
    unfolding extract_fields_def reply_in_format_def
    by (simp only: g)
qed

lemma no_skill_gap_label: "\<not> sublist ''Skill Gap:'' reply_without_skill_gap"
  by code_simp

lemma texts_as_requested:
  "label_free '' 7/10''" "label_free '' Good start.''" "label_free '' Recursion depth.''"
  "label_free '' Name the base case.''"
  "py_strip '' 7/10'' = ''7/10''" "py_strip '' Good start.'' = ''Good start.''"
  "py_strip '' Recursion depth.'' = ''Recursion depth.''"
  "py_strip '' Name the base case.'' = ''Name the base case.''"
  by code_simp+

text \<open>
  C3, as amended. In the subjective-with-answer branch, when the completion call returns
  a reply, the response has status 200 and carries all four fields, whatever the reply.
  For every reply in the requested format (the label "Score:" at the start of the text,
  then "Feedback:", "Skill Gap:" and "Correct Approach/Solution Highlights:" each at the
  start of a later line, in this order; after each of the first three labels a text that
  is not blank and contains no known label, a single line for the score; after the last
  label a text that contains no known label), each of the four fields is extracted by
  locating its literal label and capturing the text up to the next known label or the end
  of the text, stripped of the white space around it. For every reply in which the label
  of a field is absent, that field is set to its fixed fallback: "N/A" for the score and
  a "Could not parse ..." text for each of the other three. A missing label never fails
  the request.
\<close>

theorem subjective_reply_parsed:
  assumes "truthy (question_text req)" and "question_type req = Some ''subjective''"
    and "\<not> blank (user_answer req)"
    and "next_reply orc (evaluation_prompt req) w = Text raw"
  shows "\<exists>res. evaluate_answer up orc req w =
                 jsonify 200 (Evaluation res) (asked (evaluation_prompt req) w)
       \<and> raw_gemini_response res = None
       \<and> (\<not> sublist ''Score:'' raw \<longrightarrow> score res = ''N/A'')
       \<and> (\<not> sublist ''Feedback:'' raw \<longrightarrow>
            feedback res = ''Could not parse detailed feedback from AI.'')
       \<and> (\<not> sublist ''Skill Gap:'' raw \<longrightarrow>
            skill_gap res = ''Could not parse skill gap analysis from AI.'')
       \<and> (\<not> sublist ''Correct Approach/Solution Highlights:'' raw \<longrightarrow>
            solution_highlights res = ''Could not parse solution highlights from AI.'')
       \<and> (raw = reply_in_format a b c d
            \<and> label_free a \<and> label_free b \<and> label_free c \<and> label_free d
            \<and> CHR 0x0A \<notin> set a
            \<and> py_strip a \<noteq> [] \<and> py_strip b \<noteq> [] \<and> py_strip c \<noteq> [] \<longrightarrow>
            score res = py_strip a \<and> feedback res = py_strip b
            \<and> skill_gap res = py_strip c \<and> solution_highlights res = py_strip d)"
proof -
  have "evaluate_answer up orc req w = subjective_answered orc req w"
    using assms(1-3) by (simp add: evaluate_answer_def)
  then have e: "evaluate_answer up orc req w =
           jsonify 200 (Evaluation (extract_fields raw)) (asked (evaluation_prompt req) w)"
    using assms(4) by (simp add: subjective_answered_eq parse_evaluation_eq)
  have absent: "raw_gemini_response (extract_fields raw) = None
       \<and> (\<not> sublist ''Score:'' raw \<longrightarrow> score (extract_fields raw) = ''N/A'')
       \<and> (\<not> sublist ''Feedback:'' raw \<longrightarrow>
            feedback (extract_fields raw) = ''Could not parse detailed feedback from AI.'')
       \<and> (\<not> sublist ''Skill Gap:'' raw \<longrightarrow>
            skill_gap (extract_fields raw) = ''Could not parse skill gap analysis from AI.'')
       \<and> (\<not> sublist ''Correct Approach/Solution Highlights:'' raw \<longrightarrow>
            solution_highlights (extract_fields raw) =
              ''Could not parse solution highlights from AI.'')"
    by (simp add: extract_fields_def field_after_absent)
  have format: "score (extract_fields raw) = py_strip a
      \<and> feedback (extract_fields raw) = py_strip b
      \<and> skill_gap (extract_fields raw) = py_strip c
      \<and> solution_highlights (extract_fields raw) = py_strip d"
    if "raw = reply_in_format a b c d" and "label_free a" and "label_free b"
      and "label_free c" and "CHR 0x0A \<notin> set a"
      and "py_strip a \<noteq> []" and "py_strip b \<noteq> []" and "py_strip c \<noteq> []"
    using extract_fields_in_format [OF that(2-8), of d] that(1) by simp
  from e absent format show ?thesis by (intro exI [of _ "extract_fields raw"]) blast
qed

text \<open>
  A reply in the requested format is taken apart into its four texts, and a reply
  without the label "Skill Gap:" still gets status 200, with the fallback as skill gap.
\<close>

theorem subjective_reply_parsed_witness:
  "evaluate_answer upper_of_ascii (\<lambda>i p. Text reply_as_requested)
     \<lparr>question_text = Some ''Q1. Explain recursion.'',
      user_answer = Some ''It calls itself.'', question_type = Some ''subjective'',
      correct_answer = None, rubric = None\<rparr> w0
   = jsonify 200 (Evaluation
       \<lparr>score = ''7/10'', feedback = ''Good start.'', skill_gap = ''Recursion depth.'',
        solution_highlights = ''Name the base case.'', raw_gemini_response = None\<rparr>)
      (asked (SubjectiveEvalPrompt ''Q1. Explain recursion.'' ''It calls itself.'' ''N/A'') w0)
   \<and> (\<exists>res. evaluate_answer upper_of_ascii (\<lambda>i p. Text reply_without_skill_gap)
          \<lparr>question_text = Some ''Q1. Explain recursion.'',
           user_answer = Some ''It calls itself.'', question_type = Some ''subjective'',
           correct_answer = None, rubric = None\<rparr> w0
        = jsonify 200 (Evaluation res)
            (asked (SubjectiveEvalPrompt ''Q1. Explain recursion.'' ''It calls itself.'' ''N/A'')
               w0)
        \<and> skill_gap res = ''Could not parse skill gap analysis from AI.'')"
proof -
  let ?req = "\<lparr>question_text = Some ''Q1. Explain recursion.'',
      user_answer = Some ''It calls itself.'', question_type = Some ''subjective'',
      correct_answer = None, rubric = None\<rparr>"
  let ?p = "SubjectiveEvalPrompt ''Q1. Explain recursion.'' ''It calls itself.'' ''N/A''"
  have p: "evaluation_prompt ?req = ?p"
    by (simp add: evaluation_prompt_def rubric_text_def)
  have "\<exists>res. evaluate_answer upper_of_ascii (\<lambda>i p. Text reply_as_requested) ?req w0
                 = jsonify 200 (Evaluation res) (asked ?p w0)
          \<and> raw_gemini_response res = None
          \<and> score res = ''7/10'' \<and> feedback res = ''Good start.''
          \<and> skill_gap res = ''Recursion depth.''
          \<and> solution_highlights res = ''Name the base case.''"
    using subjective_reply_parsed [where req = ?req and up = upper_of_ascii
        and orc = "\<lambda>i p. Text reply_as_requested" and w = w0 and raw = reply_as_requested
        and a = "'' 7/10''" and b = "'' Good start.''" and c = "'' Recursion depth.''"
        and d = "'' Name the base case.''"]
    by (simp add: strip_essay next_reply_def p texts_as_requested
          reply_as_requested_def [symmetric])
       (simp add: reply_as_requested_def, blast)
  then obtain res where res:
    "evaluate_answer upper_of_ascii (\<lambda>i p. Text reply_as_requested) ?req w0
       = jsonify 200 (Evaluation res) (asked ?p w0)"
    "raw_gemini_response res = None" "score res = ''7/10''" "feedback res = ''Good start.''"
    "skill_gap res = ''Recursion depth.''" "solution_highlights res = ''Name the base case.''"
    by blast
  from res(2-6) have "res = \<lparr>score = ''7/10'', feedback = ''Good start.'',
      skill_gap = ''Recursion depth.'', solution_highlights = ''Name the base case.'',
      raw_gemini_response = None\<rparr>"
    by (cases res) simp
  with res(1) have first: "evaluate_answer upper_of_ascii (\<lambda>i p. Text reply_as_requested) ?req w0
     = jsonify 200 (Evaluation
         \<lparr>score = ''7/10'', feedback = ''Good start.'', skill_gap = ''Recursion depth.'',
          solution_highlights = ''Name the base case.'', raw_gemini_response = None\<rparr>)
        (asked ?p w0)"
    by simp
  have second: "\<exists>res. evaluate_answer upper_of_ascii (\<lambda>i p. Text reply_without_skill_gap) ?req w0
                 = jsonify 200 (Evaluation res) (asked ?p w0)
          \<and> skill_gap res = ''Could not parse skill gap analysis from AI.''"
    using subjective_reply_parsed [where req = ?req and up = upper_of_ascii
        and orc = "\<lambda>i p. Text reply_without_skill_gap" and w = w0
        and raw = reply_without_skill_gap]
    by (simp add: strip_essay next_reply_def p no_skill_gap_label) blast
  from first second show ?thesis by blast
qed

lemma extract_without_score:
  "extract_fields ''Feedback: Good.'' =
     \<lparr>score = ''N/A'', feedback = ''Good.'',
      skill_gap = ''Could not parse skill gap analysis from AI.'',
      solution_highlights = ''Could not parse solution highlights from AI.'',
      raw_gemini_response = None\<rparr>"
  by code_simp

lemma no_score_label: "\<not> sublist ''Score:'' ''Feedback: Good.''"
  by code_simp

lemma extract_without_skill_gap:
  "extract_fields reply_without_skill_gap =
     \<lparr>score = ''7/10'',
      feedback = ''Good start.'' @ [CHR 0x0A]
         @ ''Correct Approach/Solution Highlights: Name the base case.'',
      skill_gap = ''Could not parse skill gap analysis from AI.'',
      solution_highlights = ''Name the base case.'',
      raw_gemini_response = None\<rparr>"
  by code_simp

lemma label_in_feedback:
  "sublist ''Correct Approach/Solution Highlights:''
     (''Good start.'' @ [CHR 0x0A]
        @ ''Correct Approach/Solution Highlights: Name the base case.'')"
  by code_simp

text \<open>
  C3 as stated fails in two ways. In a reply without the label "Score:" the score is set
  to "N/A", which is not a "could not parse" text. And the capture does not always end at
  the next known label: in a reply without the label "Skill Gap:" the feedback runs over
  the label "Correct Approach/Solution Highlights:", which is the next known label after
  "Feedback:".
\<close>

theorem subjective_reply_counterexample:
  "\<not> sublist ''Score:'' ''Feedback: Good.''
   \<and> result_of (evaluate_answer upper_of_ascii (\<lambda>i p. Text ''Feedback: Good.'')
        \<lparr>question_text = Some ''Q1. Explain recursion.'',
         user_answer = Some ''It calls itself.'', question_type = Some ''subjective'',
         correct_answer = None, rubric = None\<rparr> w0)
     = Some \<lparr>score = ''N/A'', feedback = ''Good.'',
         skill_gap = ''Could not parse skill gap analysis from AI.'',
         solution_highlights = ''Could not parse solution highlights from AI.'',
         raw_gemini_response = None\<rparr>
   \<and> \<not> prefix ''Could not parse'' ''N/A''
   \<and> result_of (evaluate_answer upper_of_ascii (\<lambda>i p. Text reply_without_skill_gap)
        \<lparr>question_text = Some ''Q1. Explain recursion.'',
         user_answer = Some ''It calls itself.'', question_type = Some ''subjective'',
         correct_answer = None, rubric = None\<rparr> w0)
     = Some \<lparr>score = ''7/10'',
         feedback = ''Good start.'' @ [CHR 0x0A]
            @ ''Correct Approach/Solution Highlights: Name the base case.'',
         skill_gap = ''Could not parse skill gap analysis from AI.'',
         solution_highlights = ''Name the base case.'',
         raw_gemini_response = None\<rparr>
   \<and> sublist ''Correct Approach/Solution Highlights:''
        (''Good start.'' @ [CHR 0x0A]
           @ ''Correct Approach/Solution Highlights: Name the base case.'')"
proof -
  have a: "result_of (evaluate_answer upper_of_ascii (\<lambda>i p. Text ''Feedback: Good.'')
        \<lparr>question_text = Some ''Q1. Explain recursion.'',
         user_answer = Some ''It calls itself.'', question_type = Some ''subjective'',
         correct_answer = None, rubric = None\<rparr> w0)
     = Some \<lparr>score = ''N/A'', feedback = ''Good.'',
         skill_gap = ''Could not parse skill gap analysis from AI.'',
         solution_highlights = ''Could not parse solution highlights from AI.'',
         raw_gemini_response = None\<rparr>"
    by (simp add: evaluate_answer_def strip_essay subjective_answered_eq
          next_reply_def parse_evaluation_eq extract_without_score jsonify_def)
  have b: "result_of (evaluate_answer upper_of_ascii (\<lambda>i p. Text reply_without_skill_gap)
        \<lparr>question_text = Some ''Q1. Explain recursion.'',
         user_answer = Some ''It calls itself.'', question_type = Some ''subjective'',
         correct_answer = None, rubric = None\<rparr> w0)
     = Some \<lparr>score = ''7/10'',
         feedback = ''Good start.'' @ [CHR 0x0A]
            @ ''Correct Approach/Solution Highlights: Name the base case.'',
         skill_gap = ''Could not parse skill gap analysis from AI.'',
         solution_highlights = ''Name the base case.'',
         raw_gemini_response = None\<rparr>"
    by (simp add: evaluate_answer_def strip_essay subjective_answered_eq
          next_reply_def parse_evaluation_eq extract_without_skill_gap jsonify_def)
  have c: "\<not> prefix ''Could not parse'' ''N/A''" by simp
  from no_score_label a c b label_in_feedback show ?thesis by blast
qed

section \<open>Question counts\<close>

lemma rne_bounds:
  assumes "0 < den"
  shows "2 * num - den \<le> 2 * (den * rne num den)" and "2 * (den * rne num den) \<le> 2 * num + den"
proof -
  define d where "d = num div den"
  define r where "r = num mod den"
  have n: "num = den * d + r" by (simp add: d_def r_def)
  have r: "0 \<le> r" "r < den" using assms by (simp_all add: r_def)
  have c: "rne num den = d \<and> 2 * r \<le> den \<or> rne num den = d + 1 \<and> den \<le> 2 * r"
    by (auto simp: rne_def Let_def d_def r_def)
  have e: "den * (d + 1) = den * d + den" by (simp add: algebra_simps)
  from c show "2 * num - den \<le> 2 * (den * rne num den)"
    using n r e by auto
  from c show "2 * (den * rne num den) \<le> 2 * num + den"
    using n r e by auto
qed

lemma rne_le:
  assumes "0 < den" and "2 * num < (2 * M + 1) * den"
  shows "rne num den \<le> M"
proof (rule ccontr)
  assume "\<not> rne num den \<le> M"
  then have "M + 1 \<le> rne num den" by simp
  then have "den * (M + 1) \<le> den * rne num den"
    using assms(1) by (intro mult_left_mono) simp_all
  with rne_bounds(2) [OF assms(1), of num] have "2 * (den * (M + 1)) \<le> 2 * num + den" by simp
  with assms(2) show False by (simp add: algebra_simps)
qed

lemma bitlen_3: "bitlen 3 = 2"
  by code_simp

lemma quotient_exponent_3:
  assumes "3 \<le> a"
  shows "0 \<le> quotient_exponent a 3"
    and "3 * 2 ^ nat (quotient_exponent a 3) \<le> a"
    and "a < 6 * 2 ^ nat (quotient_exponent a 3)"
proof -
  from assms have pos: "0 < a" by simp
  define l where "l = bitlen a - 2"
  have b: "2 ^ nat (bitlen a - 1) \<le> a" "a < 2 ^ nat (bitlen a)"
    using bitlen_bounds [OF pos] by simp_all
  have "2 \<le> bitlen a"
  proof (rule ccontr)
    assume "\<not> 2 \<le> bitlen a"
    then have "nat (bitlen a) \<le> 1" by simp
    then have "(2::int) ^ nat (bitlen a) \<le> 2 ^ 1" by (intro power_increasing) simp_all
    with b(2) assms show False by simp
  qed
  then have l0: "0 \<le> l" by (simp add: l_def)
  have n1: "nat (bitlen a - 1) = Suc (nat l)" and n2: "nat (bitlen a) = Suc (Suc (nat l))"
    using l0 by (simp_all add: l_def)
  from b have b': "2 * 2 ^ nat l \<le> a" "a < 4 * 2 ^ nat l"
    by (simp_all add: n1 n2)
  have q: "quotient_exponent a 3 = (if 3 * 2 ^ nat l \<le> a then l else l - 1)"
    using l0 by (simp add: quotient_exponent_def bitlen_3 l_def Let_def)
  show "0 \<le> quotient_exponent a 3" "3 * 2 ^ nat (quotient_exponent a 3) \<le> a"
    "a < 6 * 2 ^ nat (quotient_exponent a 3)"
  proof -
    consider (hi) "3 * 2 ^ nat l \<le> a" | (lo) "a < 3 * 2 ^ nat l" by linarith
    then have "0 \<le> quotient_exponent a 3 \<and> 3 * 2 ^ nat (quotient_exponent a 3) \<le> a
       \<and> a < 6 * 2 ^ nat (quotient_exponent a 3)"
    proof cases
      case hi
      with q l0 b' show ?thesis by simp
    next
      case lo
      have "l \<noteq> 0" using lo assms by auto
      with l0 have l1: "1 \<le> l" by simp
      then have s: "nat l = Suc (nat (l - 1))" by simp
      from lo q have "quotient_exponent a 3 = l - 1" by simp
      with l1 lo b' show ?thesis by (simp add: s)
    qed
    then show "0 \<le> quotient_exponent a 3" "3 * 2 ^ nat (quotient_exponent a 3) \<le> a"
      "a < 6 * 2 ^ nat (quotient_exponent a 3)" by simp_all
  qed
qed


text \<open>The quotient of an integer \<open>a \<ge> 3\<close> by 3, for a large and for a small exponent.\<close>

lemma truediv_3_large:
  assumes "3 \<le> a" and "52 \<le> quotient_exponent a 3"
  shows "py_truediv a 3 =
           (if 2 ^ 1024 \<le> rne a (3 * 2 ^ nat (quotient_exponent a 3 - 52))
                             * 2 ^ nat (quotient_exponent a 3 - 52)
            then Inl OverflowError
            else Inr (rne a (3 * 2 ^ nat (quotient_exponent a 3 - 52)),
                      quotient_exponent a 3 - 52))"
  using assms by (simp add: py_truediv_def Let_def max_def)

lemma truediv_3_small:
  assumes "3 \<le> a" and "quotient_exponent a 3 < 52"
  shows "py_truediv a 3 =
           Inr (rne (a * 2 ^ nat (52 - quotient_exponent a 3)) 3, quotient_exponent a 3 - 52)"
  using assms quotient_exponent_3(1) [OF assms(1)]
  by (simp add: py_truediv_def Let_def max_def)

lemma round_truediv_large:
  assumes "2 \<le> n" and "52 \<le> quotient_exponent (n * 2) 3"
    and "py_truediv (n * 2) 3 = Inr q"
  shows "1 \<le> py_round q \<and> py_round q < n"
proof -
  define e where "e = quotient_exponent (n * 2) 3"
  define Q :: int where "Q = 2 ^ nat (e - 52)"
  define m where "m = rne (n * 2) (3 * Q)"
  from assms(1) have a: "3 \<le> n * 2" by simp
  have q: "q = (m, e - 52)"
    using assms(3) truediv_3_large [OF a assms(2)]
    by (simp add: e_def Q_def m_def split: if_splits)
  have Q1: "1 \<le> Q" by (simp add: Q_def)
  have "nat e = nat (e - 52) + 52" using assms(2) by (simp add: e_def)
  then have "(2::int) ^ nat e = Q * 2 ^ 52" by (simp add: Q_def power_add)
  with quotient_exponent_3(2) [OF a] have lo: "3 * (Q * 2 ^ 52) \<le> n * 2"
    by (simp add: e_def)
  have r: "py_round q = m * Q"
    using assms(2) by (simp add: q e_def Q_def)
  define R where "R = m * Q"
  have "3 * Q * m = 3 * R" by (simp add: R_def)
  with rne_bounds [of "3 * Q" "n * 2"] Q1
  have b: "2 * (n * 2) - 3 * Q \<le> 2 * (3 * R)" "2 * (3 * R) \<le> 2 * (n * 2) + 3 * Q"
    by (simp_all add: m_def)
  from lo have lo': "3 * (Q * 4503599627370496) \<le> n * 2" by simp
  from b lo' Q1 have "1 \<le> R \<and> R < n" by linarith
  then show ?thesis by (simp add: r R_def)
qed

lemma round_truediv_small:
  assumes "3 \<le> n" and "quotient_exponent (n * 2) 3 < 52"
    and "py_truediv (n * 2) 3 = Inr q"
  shows "1 \<le> py_round q \<and> py_round q < n"
proof -
  define e where "e = quotient_exponent (n * 2) 3"
  define P :: int where "P = 2 ^ nat (52 - e)"
  define m where "m = rne (n * 2 * P) 3"
  define r where "r = rne m P"
  from assms(1) have a: "3 \<le> n * 2" by simp
  have q: "q = (m, e - 52)"
    using assms(3) truediv_3_small [OF a assms(2)] by (simp add: e_def P_def m_def)
  have "(2::int) ^ 1 \<le> 2 ^ nat (52 - e)"
    using assms(2) by (intro power_increasing) (simp_all add: e_def)
  then have P2: "2 \<le> P" by (simp add: P_def)
  have pr: "py_round q = r"
    using assms(2) by (simp add: q e_def r_def P_def)
  define X where "X = n * P"
  define Y where "Y = P * r"
  have mX: "m = rne (2 * X) 3" by (simp add: m_def X_def ac_simps)
  have bm: "2 * (2 * X) - 3 \<le> 2 * (3 * m)" "2 * (3 * m) \<le> 2 * (2 * X) + 3"
    using rne_bounds [of 3 "2 * X"] by (simp_all add: mX)
  have br: "2 * m - P \<le> 2 * Y" "2 * Y \<le> 2 * m + P"
    using rne_bounds [of P m] P2 by (simp_all add: r_def Y_def)
  have nP: "3 * P \<le> X"
    unfolding X_def using assms(1) P2 by (intro mult_right_mono) simp_all
  have "r < n"
  proof (rule ccontr)
    assume "\<not> r < n"
    then have "n \<le> r" by simp
    then have "P * n \<le> P * r" using P2 by (intro mult_left_mono) simp_all
    then have "X \<le> Y" by (simp add: X_def Y_def mult.commute)
    with bm br nP P2 show False by linarith
  qed
  moreover have "0 < r"
  proof (rule ccontr)
    assume "\<not> 0 < r"
    then have "r \<le> 0" by simp
    then have "P * r \<le> P * 0" using P2 by (intro mult_left_mono) simp_all
    then have "Y \<le> 0" by (simp add: Y_def)
    with bm br nP P2 show False by linarith
  qed
  ultimately show ?thesis by (simp add: pr)
qed


text \<open>
  Below \<open>3 * 2 ^ 50\<close> the float quotient is so close to \<open>n * 2 / 3\<close> that rounding it
  gives the integer nearest to \<open>n * 2 / 3\<close>.
\<close>

lemma round_truediv_nearest:
  assumes "3 \<le> n" and "n < 3 * 2 ^ 50" and "py_truediv (n * 2) 3 = Inr q"
  shows "py_round q = (4 * n + 3) div 6"
proof -
  define e where "e = quotient_exponent (n * 2) 3"
  from assms(1) have a: "3 \<le> n * 2" by simp
  have e0: "0 \<le> e" unfolding e_def by (rule quotient_exponent_3(1) [OF a])
  have "3 * 2 ^ nat e \<le> n * 2" unfolding e_def by (rule quotient_exponent_3(2) [OF a])
  with assms(2) have "(2::int) ^ nat e < 2 ^ 51" by simp
  then have "nat e < 51" by (rule power_less_imp_less_exp [rotated]) simp
  with e0 have e50: "e \<le> 50" by simp
  then have e52: "quotient_exponent (n * 2) 3 < 52" by (simp add: e_def)
  define P :: int where "P = 2 ^ nat (52 - e)"
  define m where "m = rne (n * 2 * P) 3"
  define r where "r = rne m P"
  define t where "t = (4 * n + 3) div 6"
  define s where "s = (4 * n + 3) mod 6"
  have q: "q = (m, e - 52)"
    using assms(3) truediv_3_small [OF a e52] by (simp add: e_def P_def m_def)
  have "(2::int) ^ 2 \<le> 2 ^ nat (52 - e)"
    using e50 by (intro power_increasing) simp_all
  then have P4: "4 \<le> P" by (simp add: P_def)
  have pr: "py_round q = r"
    using e52 by (simp add: q e_def r_def P_def)
  have ts: "4 * n + 3 = 6 * t + s" by (simp add: t_def s_def)
  have s15: "1 \<le> s" "s \<le> 5"
  proof -
    have "odd (4 * n + 3)" by simp
    then have "odd s" unfolding ts by simp
    moreover have "0 \<le> s" "s < 6" by (simp_all add: s_def)
    ultimately show "1 \<le> s" "s \<le> 5" by presburger+
  qed
  define X where "X = n * P"
  define Y where "Y = P * r"
  define T where "T = P * t"
  define S where "S = P * s"
  have mX: "m = rne (2 * X) 3" by (simp add: m_def X_def ac_simps)
  have bm: "2 * (2 * X) - 3 \<le> 2 * (3 * m)" "2 * (3 * m) \<le> 2 * (2 * X) + 3"
    using rne_bounds [of 3 "2 * X"] by (simp_all add: mX)
  have br: "2 * m - P \<le> 2 * Y" "2 * Y \<le> 2 * m + P"
    using rne_bounds [of P m] P4 by (simp_all add: r_def Y_def)
  have "P * (4 * n + 3) = P * (6 * t + s)" by (simp only: ts)
  then have eq: "4 * X + 3 * P = 6 * T + S"
    by (simp add: X_def T_def S_def algebra_simps)
  have S: "P \<le> S" "S \<le> 5 * P"
  proof -
    have "P * 1 \<le> P * s" using s15 P4 by (intro mult_left_mono) simp_all
    then show "P \<le> S" by (simp add: S_def)
    have "P * s \<le> P * 5" using s15 P4 by (intro mult_left_mono) simp_all
    then show "S \<le> 5 * P" by (simp add: S_def)
  qed
  have up: "Y < T + P" using bm br eq S P4 by linarith
  have lo: "T - P < Y" using bm br eq S P4 by linarith
  have "P * r < P * (t + 1)" using up by (simp add: Y_def T_def algebra_simps)
  then have "r < t + 1" using P4 by (simp add: mult_less_cancel_left_pos)
  moreover have "P * (t - 1) < P * r" using lo by (simp add: Y_def T_def algebra_simps)
  then have "t - 1 < r" using P4 by (simp add: mult_less_cancel_left_pos)
  ultimately show ?thesis by (simp add: pr t_def)
qed

lemma truediv_4_3: "py_truediv 4 3 = Inr (6004799503160661, - 52)"
  by code_simp

lemma round_4_3: "py_round (6004799503160661, - 52) = 1"
  by code_simp

lemma round_truediv_bounds:
  assumes "2 \<le> n" and "py_truediv (n * 2) 3 = Inr q"
  shows "1 \<le> py_round q \<and> py_round q < n"
proof (cases "n = 2")
  case True
  with assms(2) truediv_4_3 have "q = (6004799503160661, - 52)" by simp
  with True round_4_3 show ?thesis by simp
next
  case False
  with assms(1) have n3: "3 \<le> n" by simp
  show ?thesis
  proof (cases "52 \<le> quotient_exponent (n * 2) 3")
    case True
    then show ?thesis by (rule round_truediv_large [OF assms(1) _ assms(2)])
  next
    case False
    then have "quotient_exponent (n * 2) 3 < 52" by simp
    then show ?thesis by (rule round_truediv_small [OF n3 _ assms(2)])
  qed
qed

text \<open>Below \<open>3 * 2 ^ 1023 - 3 * 2 ^ 969\<close> the quotient \<open>n * 2 / 3\<close> is a finite float.\<close>

lemma truediv_in_range:
  assumes "2 \<le> n" and "n < 3 * 2 ^ 1023 - 3 * 2 ^ 969"
  shows "\<exists>q. py_truediv (n * 2) 3 = Inr q"
proof (cases "52 \<le> quotient_exponent (n * 2) 3")
  case False
  from assms(1) have a: "3 \<le> n * 2" by simp
  from False have "quotient_exponent (n * 2) 3 < 52" by simp
  from truediv_3_small [OF a this] show ?thesis by simp
next
  case True
  define e where "e = quotient_exponent (n * 2) 3"
  define K where "K = nat (e - 52)"
  define Q :: int where "Q = 2 ^ K"
  define m where "m = rne (n * 2) (3 * Q)"
  from assms(1) have a: "3 \<le> n * 2" by simp
  have Q1: "1 \<le> Q" by (simp add: Q_def)
  have "nat e = K + 52" using True by (simp add: e_def K_def)
  then have pe: "(2::int) ^ nat e = Q * 2 ^ 52" by (simp add: Q_def power_add)
  from quotient_exponent_3(2,3) [OF a] pe
  have lo: "3 * (Q * 2 ^ 52) \<le> n * 2" and hi: "n * 2 < 6 * (Q * 2 ^ 52)"
    by (simp_all add: e_def)
  have m53: "m \<le> 2 ^ 53"
    unfolding m_def
  proof (rule rne_le)
    show "0 < 3 * Q" using Q1 by simp
    show "2 * (n * 2) < (2 * 2 ^ 53 + 1) * (3 * Q)" using hi Q1 by simp
  qed
  have "3 * Q * 2 ^ 52 < 3 * 2 ^ 1024" using lo assms(2) by simp
  then have "Q * 2 ^ 52 < 2 ^ 972 * (2 ^ 52 :: int)" by simp
  then have "Q < 2 ^ 972" by simp
  then have "K < 972" unfolding Q_def by (rule power_less_imp_less_exp [rotated]) simp
  have small: "m * Q < 2 ^ 1024"
  proof (cases "K = 971")
    case True
    then have Q: "Q = 2 ^ 971" by (simp add: Q_def)
    have "m \<le> 2 ^ 53 - 1"
      unfolding m_def
    proof (rule rne_le)
      show "0 < 3 * Q" using Q1 by simp
      show "2 * (n * 2) < (2 * (2 ^ 53 - 1) + 1) * (3 * Q)" using assms(2) by (simp add: Q)
    qed
    then have "m * Q \<le> (2 ^ 53 - 1) * Q" using Q1 by (intro mult_right_mono) simp_all
    then show ?thesis by (simp add: Q)
  next
    case False
    with \<open>K < 972\<close> have "K \<le> 970" by simp
    then have "Q \<le> 2 ^ 970" unfolding Q_def by (intro power_increasing) simp_all
    moreover have "m * Q \<le> 2 ^ 53 * Q" using m53 Q1 by (intro mult_right_mono) simp_all
    ultimately have "m * Q \<le> 2 ^ 53 * 2 ^ 970" by simp
    then show ?thesis by simp
  qed
  from truediv_3_large [OF a True] small show ?thesis
    by (simp add: e_def K_def Q_def m_def)
qed

text \<open>
  From two questions on, every adjustment of lines 100 to 107 leaves the counts as they
  are: the rounded quotient is at least 1 and less than the total.
\<close>

lemma both_counts_from_two:
  assumes "2 \<le> n" and "py_truediv (n * 2) 3 = Inr q"
  shows "both_counts n = Inr (py_round q, n - py_round q)"
  using round_truediv_bounds [OF assms] assms
  by (simp add: both_counts_def Let_def)

lemma both_counts_1: "both_counts 1 = Inr (1, 0)"
  by code_simp

lemma both_counts_10: "both_counts 10 = Inr (7, 3)"
  by code_simp

lemma both_counts_sum:
  assumes "0 < n" and "n < 3 * 2 ^ 1023 - 3 * 2 ^ 969"
  shows "\<exists>q. py_truediv (n * 2) 3 = Inr q
           \<and> both_counts n = Inr (py_round q, n - py_round q)
           \<and> 1 \<le> py_round q \<and> (1 < n \<longrightarrow> 1 \<le> n - py_round q)
           \<and> (n < 3 * 2 ^ 50 \<longrightarrow> py_round q = (4 * n + 3) div 6)"
proof -
  consider "n = 1" | "n = 2" | "3 \<le> n" using assms(1) by linarith
  then show ?thesis
  proof cases
    case 1
    have "py_truediv 2 3 = Inr (6004799503160661, - 53)" by code_simp
    moreover have "py_round (6004799503160661, - 53) = 1" by code_simp
    ultimately show ?thesis using 1 both_counts_1 by simp
  next
    case 2
    have "both_counts 2 = Inr (1, 1)" by code_simp
    with 2 truediv_4_3 round_4_3 show ?thesis by simp
  next
    case 3
    then have n2: "2 \<le> n" by simp
    from truediv_in_range [OF n2 assms(2)] obtain q where q: "py_truediv (n * 2) 3 = Inr q" ..
    from round_truediv_bounds [OF n2 q] both_counts_from_two [OF n2 q] q
      round_truediv_nearest [OF 3 _ q]
    show ?thesis by auto
  qed
qed

text \<open>The quotient of a negated total is the negated quotient.\<close>

lemma py_truediv_minus:
  "py_truediv (- a) 3 =
     (case py_truediv a 3 of Inl e \<Rightarrow> Inl e | Inr (m, k) \<Rightarrow> Inr (- m, k))"
  by (simp add: py_truediv_def Let_def)

lemma truediv_in_range_all:
  assumes "- (3 * 2 ^ 1023 - 3 * 2 ^ 969) < n" and "n < 3 * 2 ^ 1023 - 3 * 2 ^ 969"
  shows "\<exists>q. py_truediv (n * 2) 3 = Inr q"
proof -
  have pos: "\<exists>q. py_truediv (k * 2) 3 = Inr q"
    if "0 < k" and "k < 3 * 2 ^ 1023 - 3 * 2 ^ 969" for k
  proof (cases "k = 1")
    case True
    have "py_truediv 2 3 = Inr (6004799503160661, - 53)" by code_simp
    with True show ?thesis by simp
  next
    case False
    with that(1) have "2 \<le> k" by simp
    then show ?thesis using that(2) by (rule truediv_in_range)
  qed
  consider "n = 0" | "0 < n" | "n < 0" by linarith
  then show ?thesis
  proof cases
    case 1
    then show ?thesis by (simp add: py_truediv_def)
  next
    case 2
    then show ?thesis using assms(2) by (rule pos)
  next
    case 3
    then have "0 < - n" by simp
    moreover from assms(1) have "- n < 3 * 2 ^ 1023 - 3 * 2 ^ 969" by simp
    ultimately obtain q where q: "py_truediv (- n * 2) 3 = Inr q" using pos by blast
    have "n * 2 = - (- n * 2)" by simp
    then have "py_truediv (n * 2) 3 =
        (case py_truediv (- n * 2) 3 of Inl e \<Rightarrow> Inl e | Inr (m, k) \<Rightarrow> Inr (- m, k))"
      using py_truediv_minus [of "- n * 2"] by simp
    with q show ?thesis by (cases q) simp
  qed
qed

text \<open>
  Wherever the quotient exists, lines 97 to 107 compute the allocation of the
  specification, and no adjustment changes the first two counts: for a total up to 0
  the guard of line 100 skips the adjustments, and above 0 the rounded quotient is at
  least 1 and at most the total.
\<close>

lemma both_counts_allocation_eq:
  assumes "- (3 * 2 ^ 1023 - 3 * 2 ^ 969) < n" and "n < 3 * 2 ^ 1023 - 3 * 2 ^ 969"
  shows "\<exists>q. py_truediv (n * 2) 3 = Inr q
           \<and> both_counts n = Inr (allocation n (py_round q))
           \<and> allocation n (py_round q) = (py_round q, n - py_round q)
           \<and> (0 < n \<longrightarrow> 1 \<le> py_round q \<and> (1 < n \<longrightarrow> 1 \<le> n - py_round q)
                 \<and> (n < 3 * 2 ^ 50 \<longrightarrow> py_round q = (4 * n + 3) div 6))"
proof (cases "0 < n")
  case True
  from both_counts_sum [OF True assms(2)] obtain q where q:
    "py_truediv (n * 2) 3 = Inr q" "both_counts n = Inr (py_round q, n - py_round q)"
    "1 \<le> py_round q" "1 < n \<longrightarrow> 1 \<le> n - py_round q"
    "n < 3 * 2 ^ 50 \<longrightarrow> py_round q = (4 * n + 3) div 6"
    by blast
  have le: "py_round q \<le> n"
  proof (cases "n = 1")
    case True
    have t: "py_truediv 2 3 = Inr (6004799503160661, - 53)" by code_simp
    have r: "py_round (6004799503160661, - 53) = 1" by code_simp
    from True q(1) t have "q = (6004799503160661, - 53)" by simp
    with r show ?thesis using True by (simp del: py_round.simps)
  next
    case False
    with \<open>0 < n\<close> q(4) show ?thesis by simp
  qed
  have "allocation n (py_round q) = (py_round q, n - py_round q)"
    using True q(3,4) le by (auto simp: allocation_def Let_def max_def)
  with q show ?thesis by (intro exI [of _ q]) simp
next
  case False
  from truediv_in_range_all [OF assms] obtain q where q: "py_truediv (n * 2) 3 = Inr q" ..
  with False show ?thesis
    by (intro exI [of _ q]) (simp add: both_counts_def allocation_def Let_def)
qed

lemma both_counts_0: "both_counts 0 = Inr (0, 0)"
  by code_simp

lemma both_counts_minus_3: "both_counts (- 3) = Inr (- 2, - 1)"
  by code_simp

text \<open>
  C1, as amended. For every total_questions strictly between
  \<open>- (3 * 2 ^ 1023 - 3 * 2 ^ 969)\<close> and \<open>3 * 2 ^ 1023 - 3 * 2 ^ 969\<close>, where the float
  quotient \<open>total_questions * 2 / 3\<close> exists, with both "mcq" and "subjective" among the
  question types: the generate operation allocates
  \<open>num_mcq = round(total_questions * 2 / 3)\<close> and
  \<open>num_subjective = total_questions - num_mcq\<close>, then if \<open>total_questions > 0\<close> forces
  each count to at least 1 and, if the forced minimums push the sum above the total,
  shrinks the larger count so that the two counts sum to the total exactly (the
  \<open>allocation\<close> of the specification). The counts that result are the first two, which
  no adjustment changes: for a total up to 0 none is made (a total of 0 gives 0 and 0), and
  for a total of 1 the forced subjective question is taken back (1 and 0). A total of 10
  yields 7 and 3; for every total above 0 \<open>num_mcq\<close> is at least 1, and for every total
  above 1 both counts are at least 1; the counts always sum to the total. For a total
  above 0 and below \<open>3 * 2 ^ 50\<close> the rounded float quotient is the integer nearest to
  two thirds of the total.
\<close>

theorem both_counts_allocation:
  assumes "''mcq'' \<in> set qts" and "''subjective'' \<in> set qts"
  shows "question_counts qts 10 = Inr (Some (7, 3))
       \<and> (- (3 * 2 ^ 1023 - 3 * 2 ^ 969) < n \<and> n < 3 * 2 ^ 1023 - 3 * 2 ^ 969 \<longrightarrow>
            (\<exists>q. py_truediv (n * 2) 3 = Inr q
               \<and> question_counts qts n = Inr (Some (allocation n (py_round q)))
               \<and> question_counts qts n = Inr (Some (py_round q, n - py_round q))
               \<and> (0 < n \<longrightarrow> 1 \<le> py_round q)
               \<and> (1 < n \<longrightarrow> 1 \<le> n - py_round q)
               \<and> (0 < n \<and> n < 3 * 2 ^ 50 \<longrightarrow> py_round q = (4 * n + 3) div 6)))"
proof -
  have k: "question_counts qts k = (case both_counts k of Inl e \<Rightarrow> Inl e | Inr c \<Rightarrow> Inr (Some c))"
    for k using assms by (simp add: question_counts_def)
  have ten: "question_counts qts 10 = Inr (Some (7, 3))"
    by (simp add: k both_counts_10)
  have rng: "\<exists>q. py_truediv (n * 2) 3 = Inr q
               \<and> question_counts qts n = Inr (Some (allocation n (py_round q)))
               \<and> question_counts qts n = Inr (Some (py_round q, n - py_round q))
               \<and> (0 < n \<longrightarrow> 1 \<le> py_round q)
               \<and> (1 < n \<longrightarrow> 1 \<le> n - py_round q)
               \<and> (0 < n \<and> n < 3 * 2 ^ 50 \<longrightarrow> py_round q = (4 * n + 3) div 6)"
    if "- (3 * 2 ^ 1023 - 3 * 2 ^ 969) < n" and "n < 3 * 2 ^ 1023 - 3 * 2 ^ 969"
  proof -
    from both_counts_allocation_eq [OF that] obtain q where
      "py_truediv (n * 2) 3 = Inr q"
      "both_counts n = Inr (allocation n (py_round q))"
      "allocation n (py_round q) = (py_round q, n - py_round q)"
      "0 < n \<longrightarrow> 1 \<le> py_round q \<and> (1 < n \<longrightarrow> 1 \<le> n - py_round q)
         \<and> (n < 3 * 2 ^ 50 \<longrightarrow> py_round q = (4 * n + 3) div 6)"
      by blast
    then show ?thesis by (intro exI [of _ q]) (simp add: k)
  qed
  from ten rng show ?thesis by blast
qed

theorem both_counts_allocation_witness:
  "question_counts [''mcq'', ''subjective''] 10 = Inr (Some (7, 3))
   \<and> (\<exists>q. py_truediv (7 * 2) 3 = Inr q
         \<and> question_counts [''mcq'', ''subjective''] 7 = Inr (Some (py_round q, 7 - py_round q))
         \<and> 1 \<le> py_round q \<and> 1 \<le> 7 - py_round q \<and> py_round q = 5)
   \<and> question_counts [''mcq'', ''subjective''] 0 = Inr (Some (0, 0))
   \<and> question_counts [''mcq'', ''subjective''] (- 3) = Inr (Some (- 2, - 1))"
proof -
  have a: "question_counts [''mcq'', ''subjective''] 10 = Inr (Some (7, 3))
     \<and> (\<exists>q. py_truediv (7 * 2) 3 = Inr q
           \<and> question_counts [''mcq'', ''subjective''] 7
               = Inr (Some (py_round q, 7 - py_round q))
           \<and> 1 \<le> py_round q \<and> 1 \<le> 7 - py_round q \<and> py_round q = 5)"
    using both_counts_allocation [of "[''mcq'', ''subjective'']" 7]
    by (simp del: py_round.simps) blast
  have b: "question_counts [''mcq'', ''subjective''] 0 = Inr (Some (0, 0))"
    using both_counts_allocation [of "[''mcq'', ''subjective'']" 0]
    by (simp add: question_counts_def both_counts_0 del: py_round.simps)
  have c: "question_counts [''mcq'', ''subjective''] (- 3) = Inr (Some (- 2, - 1))"
    using both_counts_allocation [of "[''mcq'', ''subjective'']" "- 3"]
    by (simp add: question_counts_def both_counts_minus_3 del: py_round.simps)
  from a b c show ?thesis by blast
qed

text \<open>
  C1 as stated fails for a total of \<open>3 * 2 ^ 1023 - 3 * 2 ^ 969\<close>: the quotient
  \<open>total * 2 / 3\<close> rounds to \<open>2 ^ 1024\<close>, which is no float, so the division raises
  OverflowError; no counts are allocated and the exception leaves the handler.
\<close>

theorem both_counts_overflow_counterexample:
  "(1::int) < 3 * 2 ^ 1023 - 3 * 2 ^ 969
   \<and> question_counts [''mcq'', ''subjective''] (3 * 2 ^ 1023 - 3 * 2 ^ 969) = Inl OverflowError
   \<and> fst (generate_assessment
        \<lparr>tmp_name = ''/tmp/t.pdf'', save_raises = False, extract_text = Some\<rparr>
        (\<lambda>i p. Text ''Q1.'')
        \<lparr>topic = Some ''Graphs'', total_questions = Given (3 * 2 ^ 1023 - 3 * 2 ^ 969),
         difficulty = None, question_types = Given [''mcq'', ''subjective''],
         syllabus_pdf = None\<rparr> w0) = Inl OverflowError"
proof -
  have b: "both_counts (3 * 2 ^ 1023 - 3 * 2 ^ 969) = Inl OverflowError"
    by code_simp
  have q: "question_counts [''mcq'', ''subjective''] (3 * 2 ^ 1023 - 3 * 2 ^ 969)
           = Inl OverflowError"
    unfolding question_counts_def using b by simp
  show ?thesis
    using q by (simp add: generate_assessment_def count_and_generate_def)
qed

end
